theory Spec2Isabelle
  imports Main
begin

section \<open>Time\<close>

text \<open>
  A \<^verbatim>\<open>time.Time\<close> is the number of nanoseconds since 1970-01-01 00:00 on the wall clock
  of the scheduling zone (\<^verbatim>\<open>ukLocation\<close>), taken as a zone of fixed offset: the shifts of
  the wall clock at daylight-saving transitions are outside the model. 1970-01-01 was a
  Thursday, and \<^verbatim>\<open>Weekday()\<close> counts Sunday as 0.

  A \<^verbatim>\<open>time.Duration\<close> is an \<^verbatim>\<open>int64\<close> of nanoseconds: an \<open>int\<close> here, with the
  wrap-around of its arithmetic written out by \<open>wrap64\<close>.
\<close>

type_synonym gotime = int

definition Second :: int where
  "Second = 1000000000"

definition Minute :: int where
  "Minute = 60 * Second"

definition Day :: int where
  "Day = 86400 * Second"

definition wrap64 :: "int \<Rightarrow> int" where
  "wrap64 x = (x + 2 ^ 63) mod 2 ^ 64 - 2 ^ 63"

definition Weekday :: "gotime \<Rightarrow> int" where
  "Weekday t = (t div Day + 4) mod 7"

definition AddDate :: "gotime \<Rightarrow> int \<Rightarrow> gotime" where
  \<comment> \<open>\<^verbatim>\<open>t.AddDate(0, 0, days)\<close>\<close>
  "AddDate t days = t + days * Day"

definition Sub :: "gotime \<Rightarrow> gotime \<Rightarrow> int" where
  \<comment> \<open>\<^verbatim>\<open>t.Sub(u)\<close>: the difference, kept inside the range of a \<^verbatim>\<open>Duration\<close>\<close>
  "Sub t u = max (- (2 ^ 63)) (min (2 ^ 63 - 1) (t - u))"

section \<open>Data\<close>

text \<open>
  The fields of \<^verbatim>\<open>models.User\<close> and \<^verbatim>\<open>timetable.Lecture\<close> that the scheduler reads.
  A chat identity is an \<^verbatim>\<open>int64\<close> that is only compared and used as a key: an \<open>int\<close>.
\<close>

record user =
  ChatID :: int
  DailyTime :: string
  WeeklyTime :: string
  WebCalURL :: string
  ReminderOffset :: string

record lecture =
  Title :: string
  Location :: string
  Start :: gotime

text \<open>
  Modelled from the spec: \<^verbatim>\<open>database.GetUser\<close> is not among the sources. It returns
  a record pointer and an error; the user directory "returns a user's current reminder
  configuration by identity", and a record may be impossible to find or to read. The three
  outcomes are a record with no error, no record with no error, and no record with an
  error; a record together with an error is not an outcome.
\<close>

datatype get_user_result = UserFound user | UserMissing | UserError string

text \<open>
  The collaborators of the scheduler, none of them among the sources, and the reading of
  the clock. \<open>'cal\<close> is the parsed calendar. An \<^verbatim>\<open>error\<close> is its message.
\<close>

record 'cal env =
  GetUser :: "int \<Rightarrow> get_user_result"
  GetAllUsers :: "user list"
  FetchCalendar :: "string \<Rightarrow> string + 'cal"
  GetLectures :: "'cal \<Rightarrow> gotime \<Rightarrow> string + lecture list"
  GetLecturesInRange :: "'cal \<Rightarrow> gotime \<Rightarrow> gotime \<Rightarrow> string + (string \<times> lecture list) list"
  FormatLectures :: "lecture list \<Rightarrow> string"
  CleanTitle :: "string \<Rightarrow> string"
  GetNextTime :: "string \<Rightarrow> gotime"
  GetNextWeekTime :: "string \<Rightarrow> gotime"
  Atoi :: "string \<Rightarrow> int option"
  Format :: "string \<Rightarrow> gotime \<Rightarrow> string"
  now :: gotime

text \<open>
  A \<^verbatim>\<open>*time.Timer\<close> made by \<^verbatim>\<open>time.AfterFunc\<close> is an index into the list of all timers
  made so far. Its callback is the closure it was made with: which function of the
  scheduler it runs, and the variables it captured.
\<close>

datatype callback =
    DailyCb int
  | WeeklyCb int
  | MidnightCb int
  | ReminderCb int lecture int

datatype timer_status = Armed | Fired | Stopped

record timer =
  status :: timer_status
  deadline :: gotime
  callback :: callback

record UserTimers =
  dailyTimer :: "nat option"
  weeklyTimer :: "nat option"
  lectureTimers :: "nat list"
  lectureScheduler :: "nat option"

text \<open>
  The scheduler: its map \<open>timers\<close>, the timers of the runtime (\<open>heap\<close>), and the messages
  handed to \<^verbatim>\<open>api.Send\<close> (\<open>outbox\<close>), oldest first.
\<close>

record Scheduler =
  timers :: "int \<rightharpoonup> UserTimers"
  heap :: "timer list"
  outbox :: "(int \<times> string) list"

text \<open>Writing through a nil \<^verbatim>\<open>*UserTimers\<close> panics.\<close>

datatype error = NilDereference

definition andThen :: "error + 'a \<Rightarrow> ('a \<Rightarrow> error + 'b) \<Rightarrow> error + 'b" where
  "andThen r f = (case r of Inl e \<Rightarrow> Inl e | Inr a \<Rightarrow> f a)"

section \<open>Timers of the runtime\<close>

definition is_armed :: "Scheduler \<Rightarrow> nat \<Rightarrow> bool" where
  "is_armed s i = (i < length (heap s) \<and> status (heap s ! i) = Armed)"

definition Stop :: "nat \<Rightarrow> Scheduler \<Rightarrow> Scheduler" where
  \<comment> \<open>\<^verbatim>\<open>timer.Stop()\<close>: an armed timer will not fire; any other timer is left as it is\<close>
  "Stop i s =
     (if is_armed s i
      then s\<lparr>heap := (heap s)[i := (heap s ! i)\<lparr>status := Stopped\<rparr>]\<rparr>
      else s)"

definition StopIfSet :: "nat option \<Rightarrow> Scheduler \<Rightarrow> Scheduler" where
  \<comment> \<open>\<^verbatim>\<open>if t != nil { t.Stop() }\<close>\<close>
  "StopIfSet t s = (case t of None \<Rightarrow> s | Some i \<Rightarrow> Stop i s)"

definition AfterFunc :: "'cal env \<Rightarrow> int \<Rightarrow> callback \<Rightarrow> Scheduler \<Rightarrow> nat \<times> Scheduler" where
  \<comment> \<open>\<^verbatim>\<open>time.AfterFunc(d, f)\<close>: a new armed timer\<close>
  "AfterFunc e d f s =
     (length (heap s),
      s\<lparr>heap := heap s @ [\<lparr>status = Armed, deadline = now e + d, callback = f\<rparr>]\<rparr>)"

definition Until :: "'cal env \<Rightarrow> gotime \<Rightarrow> int" where
  "Until e t = Sub t (now e)"

section \<open>The scheduler\<close>

definition NewScheduler :: Scheduler where
  "NewScheduler = \<lparr>timers = Map.empty, heap = [], outbox = []\<rparr>"

definition sendMessage :: "int \<Rightarrow> string \<Rightarrow> Scheduler \<Rightarrow> Scheduler" where
  "sendMessage chatID text s = s\<lparr>outbox := outbox s @ [(chatID, text)]\<rparr>"

definition CancelUser :: "int \<Rightarrow> Scheduler \<Rightarrow> Scheduler" where
  "CancelUser chatID s =
     (case timers s chatID of
        None \<Rightarrow> s
      | Some ut \<Rightarrow>
          (let s1 = StopIfSet (dailyTimer ut) s;
               s2 = StopIfSet (weeklyTimer ut) s1;
               s3 = StopIfSet (lectureScheduler ut) s2;
               s4 = fold Stop (lectureTimers ut) s3
           in s4\<lparr>timers := (timers s4)(chatID := None)\<rparr>))"

text \<open>
  \<^verbatim>\<open>StopAll\<close> ranges over the map, in an order the runtime chooses: \<open>order\<close> is that
  order, the keys of the map, each once.
\<close>

definition StopAll :: "int list \<Rightarrow> Scheduler \<Rightarrow> Scheduler" where
  "StopAll order s = fold CancelUser order s"

definition setField :: "int \<Rightarrow> (UserTimers \<Rightarrow> UserTimers) \<Rightarrow> Scheduler \<Rightarrow> error + Scheduler" where
  \<comment> \<open>\<^verbatim>\<open>s.timers[chatID].field = v\<close>: a missing key reads as a nil pointer\<close>
  "setField chatID upd s =
     (case timers s chatID of
        None \<Rightarrow> Inl NilDereference
      | Some ut \<Rightarrow> Inr (s\<lparr>timers := (timers s)(chatID \<mapsto> upd ut)\<rparr>))"

definition reminderTime :: "int \<Rightarrow> lecture \<Rightarrow> gotime" where
  \<comment> \<open>\<^verbatim>\<open>lecture.Start.Add(-time.Duration(offsetMinutes) * time.Minute)\<close>\<close>
  "reminderTime offsetMinutes l = Start l + wrap64 (wrap64 (- wrap64 offsetMinutes) * Minute)"

text \<open>
  The loop of \<^verbatim>\<open>scheduleLectureReminders\<close> over the lectures: \<open>ts\<close> is the slice of
  timers made so far.
\<close>

fun armReminders ::
  "'cal env \<Rightarrow> int \<Rightarrow> int \<Rightarrow> lecture list \<Rightarrow> nat list \<Rightarrow> Scheduler \<Rightarrow> nat list \<times> Scheduler" where
  "armReminders e chatID offsetMinutes [] ts s = (ts, s)"
| "armReminders e chatID offsetMinutes (l # ls) ts s =
     (if reminderTime offsetMinutes l > now e
      then (case AfterFunc e (Until e (reminderTime offsetMinutes l))
                   (ReminderCb chatID l offsetMinutes) s of
              (t, s') \<Rightarrow> armReminders e chatID offsetMinutes ls (ts @ [t]) s')
      else armReminders e chatID offsetMinutes ls ts s)"

definition cancelLectureTimers :: "int \<Rightarrow> Scheduler \<Rightarrow> Scheduler" where
  \<comment> \<open>the first statement of \<^verbatim>\<open>scheduleLectureReminders\<close>, under \<^verbatim>\<open>s.timers[chatID] != nil\<close>\<close>
  "cancelLectureTimers chatID s =
     (case timers s chatID of
        None \<Rightarrow> s
      | Some ut \<Rightarrow>
          (let s1 = fold Stop (lectureTimers ut) s
           in s1\<lparr>timers := (timers s1)(chatID \<mapsto> ut\<lparr>lectureTimers := []\<rparr>)\<rparr>))"

definition scheduleLectureReminders :: "'cal env \<Rightarrow> int \<Rightarrow> Scheduler \<Rightarrow> error + Scheduler" where
  "scheduleLectureReminders e chatID s =
     (let s1 = cancelLectureTimers chatID s in
      case GetUser e chatID of
        UserFound user \<Rightarrow>
          if WebCalURL user = [] then Inr s1
          else (case FetchCalendar e (WebCalURL user) of
                  Inl err \<Rightarrow> Inr s1
                | Inr cal \<Rightarrow>
                    (case GetLectures e cal (now e) of
                       Inl err \<Rightarrow> Inr s1
                     | Inr lectures \<Rightarrow>
                         if lectures = [] then Inr s1
                         else (let offsetMinutes =
                                     (case Atoi e (ReminderOffset user) of
                                        None \<Rightarrow> 15
                                      | Some n \<Rightarrow> n)
                               in case armReminders e chatID offsetMinutes lectures [] s1 of
                                    (ts, s2) \<Rightarrow>
                                      setField chatID (\<lambda>ut. ut\<lparr>lectureTimers := ts\<rparr>) s2)))
      | UserMissing \<Rightarrow> Inr s1
      | UserError err \<Rightarrow> Inr s1)"

definition nextMidnight :: "gotime \<Rightarrow> gotime" where
  \<comment> \<open>\<^verbatim>\<open>time.Date(now.Year(), now.Month(), now.Day(), 0, 0, 1, 0, ukLocation).AddDate(0, 0, 1)\<close>\<close>
  "nextMidnight t = AddDate (t div Day * Day + Second) 1"

definition scheduleLectureRemindersAtMidnight ::
  "'cal env \<Rightarrow> int \<Rightarrow> Scheduler \<Rightarrow> error + Scheduler" where
  "scheduleLectureRemindersAtMidnight e chatID s =
     (case AfterFunc e (Until e (nextMidnight (now e))) (MidnightCb chatID) s of
        (t, s1) \<Rightarrow>
          andThen (setField chatID (\<lambda>ut. ut\<lparr>lectureScheduler := Some t\<rparr>) s1)
            (scheduleLectureReminders e chatID))"

definition installTimers :: "int \<Rightarrow> Scheduler \<Rightarrow> error + Scheduler" where
  \<comment> \<open>\<^verbatim>\<open>s.timers[chatID] = &UserTimers{}\<close>\<close>
  "installTimers chatID s =
     Inr (s\<lparr>timers := (timers s)(chatID \<mapsto>
            \<lparr>dailyTimer = None, weeklyTimer = None, lectureTimers = [],
             lectureScheduler = None\<rparr>)\<rparr>)"

definition armDaily :: "'cal env \<Rightarrow> int \<Rightarrow> user \<Rightarrow> Scheduler \<Rightarrow> error + Scheduler" where
  "armDaily e chatID u s =
     (case AfterFunc e (Until e (GetNextTime e (DailyTime u))) (DailyCb chatID) s of
        (t, s1) \<Rightarrow> setField chatID (\<lambda>ut. ut\<lparr>dailyTimer := Some t\<rparr>) s1)"

definition armWeekly :: "'cal env \<Rightarrow> int \<Rightarrow> user \<Rightarrow> Scheduler \<Rightarrow> error + Scheduler" where
  "armWeekly e chatID u s =
     (case AfterFunc e (Until e (GetNextWeekTime e (WeeklyTime u))) (WeeklyCb chatID) s of
        (t, s1) \<Rightarrow> setField chatID (\<lambda>ut. ut\<lparr>weeklyTimer := Some t\<rparr>) s1)"

definition ScheduleUser :: "'cal env \<Rightarrow> int \<Rightarrow> Scheduler \<Rightarrow> error + Scheduler" where
  "ScheduleUser e chatID s =
     (case GetUser e chatID of
        UserFound u \<Rightarrow>
          andThen (andThen (andThen (installTimers chatID (CancelUser chatID s))
            (armDaily e chatID u))
            (armWeekly e chatID u))
            (scheduleLectureRemindersAtMidnight e chatID)
      | UserMissing \<Rightarrow> Inr s
      | UserError err \<Rightarrow> Inr s)"

fun ScheduleAllFrom :: "'cal env \<Rightarrow> user list \<Rightarrow> Scheduler \<Rightarrow> error + Scheduler" where
  "ScheduleAllFrom e [] s = Inr s"
| "ScheduleAllFrom e (u # us) s = andThen (ScheduleUser e (ChatID u) s) (ScheduleAllFrom e us)"

definition ScheduleAll :: "'cal env \<Rightarrow> Scheduler \<Rightarrow> error + Scheduler" where
  "ScheduleAll e s = ScheduleAllFrom e (GetAllUsers e) s"

section \<open>Digests\<close>

definition newline :: char where
  "newline = CHR 0x0A"

definition prompt :: string where
  "prompt = ''Please set your calendar link using /set_calendar''"

definition sendDailyTimetable :: "'cal env \<Rightarrow> int \<Rightarrow> Scheduler \<Rightarrow> Scheduler" where
  "sendDailyTimetable e chatID s =
     (case GetUser e chatID of
        UserFound user \<Rightarrow>
          if WebCalURL user = [] then sendMessage chatID prompt s
          else (case FetchCalendar e (WebCalURL user) of
                  Inl err \<Rightarrow> sendMessage chatID (''Error fetching calendar: '' @ err) s
                | Inr cal \<Rightarrow>
                    (case GetLectures e cal (now e) of
                       Inl err \<Rightarrow> sendMessage chatID (''Error processing calendar: '' @ err) s
                     | Inr lectures \<Rightarrow>
                         if lectures = [] then sendMessage chatID ''No lectures today.'' s
                         else sendMessage chatID
                                (''*'' @ Format e ''Mon, 02 Jan'' (now e) @ '':*'' @ [newline, newline]
                                 @ FormatLectures e lectures) s))
      | UserMissing \<Rightarrow> sendMessage chatID prompt s
      | UserError err \<Rightarrow> sendMessage chatID prompt s)"

definition weekWindow :: "gotime \<Rightarrow> gotime \<times> gotime" where
  "weekWindow t =
     (let weekday = Weekday t;
          weekday = (if weekday = 0 then 7 else weekday);
          weekStart = AddDate t (- (weekday - 1));
          weekEnd = AddDate weekStart 4
      in (weekStart, weekEnd))"

function weekLines ::
  "'cal env \<Rightarrow> (string \<times> lecture list) list \<Rightarrow> gotime \<Rightarrow> gotime \<Rightarrow> string" where
  "weekLines e lecturesMap day weekEnd =
     (if day > weekEnd then []
      else (case map_of lecturesMap (Format e ''Monday'' day) of
              Some lectures \<Rightarrow>
                [newline] @ ''*'' @ Format e ''Monday'' day @ ''*'' @ [newline]
                @ FormatLectures e lectures
            | None \<Rightarrow> [])
           @ weekLines e lecturesMap (AddDate day 1) weekEnd)"
  by pat_completeness auto
termination
  by (relation "measure (\<lambda>(e, m, day, weekEnd). nat (weekEnd - day + 1))")
     (auto simp: AddDate_def Day_def Second_def)

declare weekLines.simps [simp del]

definition sendWeeklyTimetable :: "'cal env \<Rightarrow> int \<Rightarrow> Scheduler \<Rightarrow> Scheduler" where
  "sendWeeklyTimetable e chatID s =
     (case GetUser e chatID of
        UserFound user \<Rightarrow>
          if WebCalURL user = [] then sendMessage chatID prompt s
          else (case FetchCalendar e (WebCalURL user) of
                  Inl err \<Rightarrow> sendMessage chatID (''Error fetching calendar: '' @ err) s
                | Inr cal \<Rightarrow>
                    (case weekWindow (now e) of
                       (weekStart, weekEnd) \<Rightarrow>
                         (case GetLecturesInRange e cal weekStart weekEnd of
                            Inl err \<Rightarrow>
                              sendMessage chatID (''Error processing calendar: '' @ err) s
                          | Inr lecturesMap \<Rightarrow>
                              if lecturesMap = [] then sendMessage chatID ''No lectures this week.'' s
                              else sendMessage chatID
                                     (''*'' @ Format e ''Mon, 02 Jan'' weekStart @ '' - ''
                                      @ Format e ''Fri, 02 Jan'' weekEnd @ '':*''
                                      @ [newline, newline]
                                      @ weekLines e lecturesMap weekStart weekEnd) s)))
      | UserMissing \<Rightarrow> sendMessage chatID prompt s
      | UserError err \<Rightarrow> sendMessage chatID prompt s)"

section \<open>Firing\<close>

fun digitsOf :: "nat \<Rightarrow> string" where
  "digitsOf n =
     (if n < 10 then [char_of (48 + n)] else digitsOf (n div 10) @ [char_of (48 + n mod 10)])"

definition Itoa :: "int \<Rightarrow> string" where
  \<comment> \<open>the verb \<^verbatim>\<open>%d\<close>\<close>
  "Itoa i = (if i < 0 then ''-'' @ digitsOf (nat (- i)) else digitsOf (nat i))"

definition reminderMessage :: "'cal env \<Rightarrow> lecture \<Rightarrow> int \<Rightarrow> string" where
  \<comment> \<open>the message begins with the three bytes of U+23F0\<close>
  "reminderMessage e l offsetMinutes =
     [CHR 0xE2, CHR 0x8F, CHR 0xB0] @ '' *'' @ CleanTitle e (Title l) @ ''* in ''
     @ Itoa offsetMinutes @ '' minutes at '' @ Location l"

definition runCallback :: "'cal env \<Rightarrow> callback \<Rightarrow> Scheduler \<Rightarrow> error + Scheduler" where
  "runCallback e f s =
     (case f of
        DailyCb chatID \<Rightarrow> ScheduleUser e chatID (sendDailyTimetable e chatID s)
      | WeeklyCb chatID \<Rightarrow> ScheduleUser e chatID (sendWeeklyTimetable e chatID s)
      | MidnightCb chatID \<Rightarrow>
          andThen (scheduleLectureReminders e chatID s)
            (scheduleLectureRemindersAtMidnight e chatID)
      | ReminderCb chatID l offsetMinutes \<Rightarrow>
          Inr (sendMessage chatID (reminderMessage e l offsetMinutes) s))"

text \<open>
  The runtime fires a timer only while it is armed, and then runs its callback; a timer
  that was stopped, or that fired before, does nothing. \<open>e\<close> is the environment at the
  moment of firing.
\<close>

definition fire :: "'cal env \<Rightarrow> nat \<Rightarrow> Scheduler \<Rightarrow> error + Scheduler" where
  "fire e i s =
     (if is_armed s i
      then runCallback e (callback (heap s ! i))
             (s\<lparr>heap := (heap s)[i := (heap s ! i)\<lparr>status := Fired\<rparr>]\<rparr>)
      else Inr s)"

section \<open>Two invocations at once\<close>

text \<open>
  \<^verbatim>\<open>ScheduleUser\<close>, once it has read the user, is five statements on the scheduler, and
  the \<^verbatim>\<open>Scheduler\<close> holds no lock. Two invocations that overlap are two such lists of
  statements, run in some merged order: \<open>True\<close> in the order means that the first
  invocation runs its next statement, \<open>False\<close> that the second does.
\<close>

definition ScheduleUserSteps ::
  "'cal env \<Rightarrow> int \<Rightarrow> user \<Rightarrow> (Scheduler \<Rightarrow> error + Scheduler) list" where
  "ScheduleUserSteps e chatID u =
     [\<lambda>s. Inr (CancelUser chatID s),
      installTimers chatID,
      armDaily e chatID u,
      armWeekly e chatID u,
      scheduleLectureRemindersAtMidnight e chatID]"

fun runSteps :: "(Scheduler \<Rightarrow> error + Scheduler) list \<Rightarrow> Scheduler \<Rightarrow> error + Scheduler" where
  "runSteps [] s = Inr s"
| "runSteps (f # fs) s = andThen (f s) (runSteps fs)"

fun interleave ::
  "(Scheduler \<Rightarrow> error + Scheduler) list \<Rightarrow> (Scheduler \<Rightarrow> error + Scheduler) list \<Rightarrow>
   bool list \<Rightarrow> Scheduler \<Rightarrow> error + Scheduler" where
  "interleave [] gs order s = runSteps gs s"
| "interleave (f # fs) [] order s = runSteps (f # fs) s"
| "interleave (f # fs) (g # gs) [] s = runSteps ((f # fs) @ (g # gs)) s"
| "interleave (f # fs) (g # gs) (True # order) s =
     andThen (f s) (interleave fs (g # gs) order)"
| "interleave (f # fs) (g # gs) (False # order) s =
     andThen (g s) (interleave (f # fs) gs order)"


fun instants ::
  "(Scheduler \<Rightarrow> error + Scheduler) list \<Rightarrow> Scheduler \<Rightarrow> (error + Scheduler) list" where
  "instants [] s = [Inr s]"
| "instants (f # fs) s = Inr s # (case f s of Inl err \<Rightarrow> [Inl err] | Inr s' \<Rightarrow> instants fs s')"

section \<open>What is armed, and for whom\<close>

definition armedWith :: "Scheduler \<Rightarrow> callback \<Rightarrow> nat list" where
  \<comment> \<open>the armed timers of the runtime that run the callback \<open>f\<close>\<close>
  "armedWith s f = filter (\<lambda>i. is_armed s i \<and> callback (heap s ! i) = f) [0..<length (heap s)]"

definition refs :: "UserTimers \<Rightarrow> nat set" where
  "refs ut = set_option (dailyTimer ut) \<union> set_option (weeklyTimer ut)
             \<union> set_option (lectureScheduler ut) \<union> set (lectureTimers ut)"

definition tracked :: "Scheduler \<Rightarrow> nat \<Rightarrow> bool" where
  \<comment> \<open>timer \<open>i\<close> is held by the timer set of the user it works for, in the field of its kind\<close>
  "tracked s i =
     (case callback (heap s ! i) of
        DailyCb c \<Rightarrow> (case timers s c of None \<Rightarrow> False | Some ut \<Rightarrow> dailyTimer ut = Some i)
      | WeeklyCb c \<Rightarrow> (case timers s c of None \<Rightarrow> False | Some ut \<Rightarrow> weeklyTimer ut = Some i)
      | MidnightCb c \<Rightarrow>
          (case timers s c of None \<Rightarrow> False | Some ut \<Rightarrow> lectureScheduler ut = Some i)
      | ReminderCb c l m \<Rightarrow>
          (case timers s c of None \<Rightarrow> False | Some ut \<Rightarrow> i \<in> set (lectureTimers ut)))"

definition wellFormed :: "Scheduler \<Rightarrow> bool" where
  \<comment> \<open>every timer a timer set points to exists, and every armed timer is tracked\<close>
  "wellFormed s =
     ((\<forall>c ut. timers s c = Some ut \<longrightarrow> (\<forall>i \<in> refs ut. i < length (heap s)))
      \<and> (\<forall>i < length (heap s). status (heap s ! i) = Armed \<longrightarrow> tracked s i))"

definition stopTimer :: "timer \<Rightarrow> timer" where
  \<comment> \<open>what \<^verbatim>\<open>Stop()\<close> does to one timer\<close>
  "stopTimer t = (if status t = Armed then t\<lparr>status := Stopped\<rparr> else t)"


definition delivered :: "error + Scheduler \<Rightarrow> (int \<times> string) list" where
  \<comment> \<open>the messages handed to the notifier when the run ended\<close>
  "delivered r = (case r of Inl err \<Rightarrow> [] | Inr s \<Rightarrow> outbox s)"

fun owner :: "callback \<Rightarrow> int" where
  "owner (DailyCb c) = c"
| "owner (WeeklyCb c) = c"
| "owner (MidnightCb c) = c"
| "owner (ReminderCb c l m) = c"

text \<open>The guards of \<^verbatim>\<open>scheduleLectureReminders\<close> that return before any timer is made.\<close>

definition replanStops :: "'cal env \<Rightarrow> int \<Rightarrow> bool" where
  "replanStops e chatID =
     (case GetUser e chatID of
        UserFound user \<Rightarrow>
          WebCalURL user = [] \<or>
          (case FetchCalendar e (WebCalURL user) of
             Inl err \<Rightarrow> True
           | Inr cal \<Rightarrow>
               (case GetLectures e cal (now e) of Inl err \<Rightarrow> True | Inr lectures \<Rightarrow> lectures = []))
      | UserMissing \<Rightarrow> True
      | UserError err \<Rightarrow> True)"

section \<open>A scheduler at work\<close>

text \<open>
  Monday 2024-06-10 is day 19884 after 1970-01-01. One user, number 1, whose four timers
  are armed; the lecture is at 14:00.
\<close>

definition clock :: "int \<Rightarrow> int \<Rightarrow> int \<Rightarrow> gotime" where
  "clock d h m = d * Day + h * 60 * Minute + m * Minute"

definition exampleUser :: user where
  "exampleUser =
     \<lparr>ChatID = 1, DailyTime = ''08:00'', WeeklyTime = ''SUN 18:00'',
      WebCalURL = ''webcal://timetable/feed.ics'', ReminderOffset = ''15''\<rparr>"

definition lectureAt :: "string \<Rightarrow> gotime \<Rightarrow> lecture" where
  "lectureAt name t = \<lparr>Title = name, Location = ''Room 1.02'', Start = t\<rparr>"

definition exampleScheduler :: Scheduler where
  "exampleScheduler =
     \<lparr>timers = [1 \<mapsto> \<lparr>dailyTimer = Some 0, weeklyTimer = Some 1, lectureTimers = [3],
                       lectureScheduler = Some 2\<rparr>],
      heap =
        [\<lparr>status = Armed, deadline = clock 19885 8 0, callback = DailyCb 1\<rparr>,
         \<lparr>status = Armed, deadline = clock 19890 18 0, callback = WeeklyCb 1\<rparr>,
         \<lparr>status = Armed, deadline = clock 19885 0 0 + Second, callback = MidnightCb 1\<rparr>,
         \<lparr>status = Armed, deadline = clock 19884 13 45,
          callback = ReminderCb 1 (lectureAt ''Algorithms'' (clock 19884 14 0)) 15\<rparr>],
      outbox = []\<rparr>"

definition exampleEnv :: "gotime \<Rightarrow> get_user_result \<Rightarrow> string + lecture list \<Rightarrow> unit env" where
  "exampleEnv t r ls =
     \<lparr>GetUser = (\<lambda>c. if c = 1 then r else UserMissing),
      GetAllUsers = [exampleUser],
      FetchCalendar = (\<lambda>url. Inr ()),
      GetLectures = (\<lambda>cal day. ls),
      GetLecturesInRange = (\<lambda>cal a b. Inr []),
      FormatLectures = (\<lambda>ls. concat (map Title ls)),
      CleanTitle = (\<lambda>title. title),
      GetNextTime = (\<lambda>str. clock 19885 8 0),
      GetNextWeekTime = (\<lambda>str. clock 19890 18 0),
      Atoi = (\<lambda>str. if str = ''15'' then Some 15
                   else if str = ''153722868'' then Some 153722868 else None),
      Format = (\<lambda>layout t. layout),
      now = t\<rparr>"

definition armedReminders :: "error + Scheduler \<Rightarrow> int \<Rightarrow> callback list" where
  \<comment> \<open>the callbacks of the armed lecture reminders in the timer set of \<open>chatID\<close>\<close>
  "armedReminders r chatID =
     (case r of
        Inl err \<Rightarrow> []
      | Inr s \<Rightarrow>
          (case timers s chatID of
             None \<Rightarrow> []
           | Some ut \<Rightarrow> map (\<lambda>i. callback (heap s ! i)) (filter (is_armed s) (lectureTimers ut))))"

definition morningLectures :: "lecture list" where
  "morningLectures =
     [lectureAt ''Logic'' (clock 19884 9 0),
      lectureAt ''Databases'' (clock 19884 11 0),
      lectureAt ''Algorithms'' (clock 19884 14 0)]"

text \<open>
  The scheduler after two invocations of \<^verbatim>\<open>ScheduleUser\<close> for user 1 that overlapped,
  starting from the empty scheduler, with no lecture today.
\<close>

definition raceResult :: Scheduler where
  "raceResult =
     \<lparr>timers = [1 \<mapsto> \<lparr>dailyTimer = Some 1, weeklyTimer = Some 4, lectureTimers = [],
                       lectureScheduler = Some 5\<rparr>],
      heap =
        [\<lparr>status = Armed, deadline = clock 19885 8 0, callback = DailyCb 1\<rparr>,
         \<lparr>status = Armed, deadline = clock 19885 8 0, callback = DailyCb 1\<rparr>,
         \<lparr>status = Armed, deadline = clock 19890 18 0, callback = WeeklyCb 1\<rparr>,
         \<lparr>status = Armed, deadline = clock 19885 0 0 + Second, callback = MidnightCb 1\<rparr>,
         \<lparr>status = Armed, deadline = clock 19890 18 0, callback = WeeklyCb 1\<rparr>,
         \<lparr>status = Armed, deadline = clock 19885 0 0 + Second, callback = MidnightCb 1\<rparr>],
      outbox = []\<rparr>"

section \<open>Stopping timers\<close>

lemma is_armed_timers_update [simp]: "is_armed (s\<lparr>timers := m\<rparr>) j = is_armed s j"
  by (simp add: is_armed_def)

lemma is_armed_outbox_update [simp]: "is_armed (s\<lparr>outbox := m\<rparr>) j = is_armed s j"
  by (simp add: is_armed_def)

lemma Stop_timers [simp]: "timers (Stop i s) = timers s"
  by (simp add: Stop_def)

lemma Stop_outbox [simp]: "outbox (Stop i s) = outbox s"
  by (simp add: Stop_def)

lemma Stop_length [simp]: "length (heap (Stop i s)) = length (heap s)"
  by (simp add: Stop_def)

lemma Stop_callback [simp]: "callback (heap (Stop i s) ! j) = callback (heap s ! j)"
  by (cases "j = i") (simp_all add: Stop_def is_armed_def)

lemma Stop_armed [simp]: "is_armed (Stop i s) j \<longleftrightarrow> is_armed s j \<and> j \<noteq> i"
  by (cases "j = i") (auto simp: Stop_def is_armed_def)

lemma Stop_not_armed: "\<not> is_armed s i \<Longrightarrow> Stop i s = s"
  by (simp add: Stop_def)

lemma StopIfSet_timers [simp]: "timers (StopIfSet t s) = timers s"
  by (cases t) (simp_all add: StopIfSet_def)

lemma StopIfSet_outbox [simp]: "outbox (StopIfSet t s) = outbox s"
  by (cases t) (simp_all add: StopIfSet_def)

lemma StopIfSet_length [simp]: "length (heap (StopIfSet t s)) = length (heap s)"
  by (cases t) (simp_all add: StopIfSet_def)

lemma StopIfSet_callback [simp]: "callback (heap (StopIfSet t s) ! j) = callback (heap s ! j)"
  by (cases t) (simp_all add: StopIfSet_def)

lemma StopIfSet_armed [simp]:
  "is_armed (StopIfSet t s) j \<longleftrightarrow> is_armed s j \<and> j \<notin> set_option t"
  by (cases t) (simp_all add: StopIfSet_def)

lemma fold_Stop_timers [simp]: "timers (fold Stop is s) = timers s"
  by (induction "is" arbitrary: s) simp_all

lemma fold_Stop_outbox [simp]: "outbox (fold Stop is s) = outbox s"
  by (induction "is" arbitrary: s) simp_all

lemma fold_Stop_length [simp]: "length (heap (fold Stop is s)) = length (heap s)"
  by (induction "is" arbitrary: s) simp_all

lemma fold_Stop_callback [simp]: "callback (heap (fold Stop is s) ! j) = callback (heap s ! j)"
  by (induction "is" arbitrary: s) simp_all

lemma fold_Stop_armed [simp]: "is_armed (fold Stop is s) j \<longleftrightarrow> is_armed s j \<and> j \<notin> set is"
  by (induction "is" arbitrary: s) auto

section \<open>CancelUser\<close>

lemma CancelUser_timers [simp]: "timers (CancelUser c s) = (timers s)(c := None)"
  by (auto simp: CancelUser_def Let_def split: option.splits)

lemma CancelUser_outbox [simp]: "outbox (CancelUser c s) = outbox s"
  by (simp add: CancelUser_def Let_def split: option.splits)

lemma CancelUser_length [simp]: "length (heap (CancelUser c s)) = length (heap s)"
  by (simp add: CancelUser_def Let_def split: option.splits)

lemma CancelUser_callback [simp]: "callback (heap (CancelUser c s) ! j) = callback (heap s ! j)"
  by (simp add: CancelUser_def Let_def split: option.splits)

lemma CancelUser_armed:
  "is_armed (CancelUser c s) j \<longleftrightarrow>
     is_armed s j \<and> (case timers s c of None \<Rightarrow> True | Some ut \<Rightarrow> j \<notin> refs ut)"
  by (auto simp: CancelUser_def Let_def refs_def split: option.splits)

lemma CancelUser_absent: "timers s c = None \<Longrightarrow> CancelUser c s = s"
  by (simp add: CancelUser_def)

section \<open>Replanning the lecture reminders\<close>

lemma cancelLectureTimers_outbox [simp]: "outbox (cancelLectureTimers c s) = outbox s"
  by (simp add: cancelLectureTimers_def Let_def split: option.splits)

lemma cancelLectureTimers_length [simp]:
  "length (heap (cancelLectureTimers c s)) = length (heap s)"
  by (simp add: cancelLectureTimers_def Let_def split: option.splits)

lemma cancelLectureTimers_callback [simp]:
  "callback (heap (cancelLectureTimers c s) ! j) = callback (heap s ! j)"
  by (simp add: cancelLectureTimers_def Let_def split: option.splits)

lemma cancelLectureTimers_timers:
  "timers (cancelLectureTimers c s) =
     (case timers s c of None \<Rightarrow> timers s
      | Some ut \<Rightarrow> (timers s)(c \<mapsto> ut\<lparr>lectureTimers := []\<rparr>))"
  by (simp add: cancelLectureTimers_def Let_def split: option.splits)

lemma cancelLectureTimers_armed:
  "is_armed (cancelLectureTimers c s) j \<longleftrightarrow>
     is_armed s j \<and> (case timers s c of None \<Rightarrow> True | Some ut \<Rightarrow> j \<notin> set (lectureTimers ut))"
  by (simp add: cancelLectureTimers_def Let_def split: option.splits)

lemma cancelLectureTimers_heap:
  "heap (cancelLectureTimers c s) =
     (case timers s c of None \<Rightarrow> heap s | Some ut \<Rightarrow> heap (fold Stop (lectureTimers ut) s))"
  by (simp add: cancelLectureTimers_def Let_def split: option.splits)

lemma upt_from_Suc: "[n..<n + Suc k] = n # [Suc n..<Suc n + k]"
  by (simp add: upt_conv_Cons)

lemma armReminders_result:
  "armReminders e c m ls ts s =
     (ts @ [length (heap s) ..< length (heap s) + length (filter (\<lambda>l. reminderTime m l > now e) ls)],
      s\<lparr>heap := heap s @ map (\<lambda>l. \<lparr>status = Armed, deadline = now e + Until e (reminderTime m l),
                                     callback = ReminderCb c l m\<rparr>)
                            (filter (\<lambda>l. reminderTime m l > now e) ls)\<rparr>)"
proof (induction ls arbitrary: ts s)
  case Nil
  then show ?case by simp
next
  case (Cons l ls)
  show ?case
  proof (cases "reminderTime m l > now e")
    case True
    then show ?thesis
      using upt_from_Suc [of "length (heap s)"] by (simp add: Cons.IH AfterFunc_def)
  next
    case False
    then show ?thesis by (simp add: Cons.IH)
  qed
qed

lemma replan_stops:
  "replanStops e c \<Longrightarrow> scheduleLectureReminders e c s = Inr (cancelLectureTimers c s)"
  by (auto simp: replanStops_def scheduleLectureReminders_def Let_def
           split: get_user_result.splits sum.splits)

lemma replan_arms:
  assumes "GetUser e c = UserFound u" "WebCalURL u \<noteq> []"
    "FetchCalendar e (WebCalURL u) = Inr cal" "GetLectures e cal (now e) = Inr ls"
    "timers s c = Some ut"
    "m = (case Atoi e (ReminderOffset u) of None \<Rightarrow> 15 | Some n \<Rightarrow> n)"
    "due = filter (\<lambda>l. reminderTime m l > now e) ls"
  shows "scheduleLectureReminders e c s =
     Inr (s\<lparr>timers := (timers s)(c \<mapsto> ut\<lparr>lectureTimers :=
                [length (heap s) ..< length (heap s) + length due]\<rparr>),
            heap := heap (fold Stop (lectureTimers ut) s)
                    @ map (\<lambda>l. \<lparr>status = Armed, deadline = now e + Until e (reminderTime m l),
                                 callback = ReminderCb c l m\<rparr>) due\<rparr>)"
proof (cases "ls = []")
  case True
  with assms show ?thesis
    by (simp add: scheduleLectureReminders_def cancelLectureTimers_def Let_def)
next
  case False
  with assms show ?thesis
    by (simp add: scheduleLectureReminders_def Let_def armReminders_result setField_def
        cancelLectureTimers_timers cancelLectureTimers_heap)
qed


lemma replan_result:
  assumes "timers s c = Some ut"
  shows "\<exists>due m. scheduleLectureReminders e c s =
     Inr (s\<lparr>timers := (timers s)(c \<mapsto> ut\<lparr>lectureTimers :=
                [length (heap s) ..< length (heap s) + length due]\<rparr>),
            heap := heap (fold Stop (lectureTimers ut) s)
                    @ map (\<lambda>l. \<lparr>status = Armed, deadline = now e + Until e (reminderTime m l),
                                 callback = ReminderCb c l m\<rparr>) due\<rparr>)"
proof (cases "replanStops e c")
  case True
  have "scheduleLectureReminders e c s =
     Inr (s\<lparr>timers := (timers s)(c \<mapsto> ut\<lparr>lectureTimers :=
                [length (heap s) ..< length (heap s) + length ([] :: lecture list)]\<rparr>),
            heap := heap (fold Stop (lectureTimers ut) s)
                    @ map (\<lambda>l. \<lparr>status = Armed, deadline = now e + Until e (reminderTime 0 l),
                                 callback = ReminderCb c l 0\<rparr>) []\<rparr>)"
    using assms by (simp add: replan_stops [OF True] cancelLectureTimers_def)
  then show ?thesis by blast
next
  case False
  then obtain u cal ls where "GetUser e c = UserFound u" "WebCalURL u \<noteq> []"
    "FetchCalendar e (WebCalURL u) = Inr cal" "GetLectures e cal (now e) = Inr ls"
    by (auto simp: replanStops_def split: get_user_result.splits sum.splits)
  from replan_arms [OF this assms refl refl] show ?thesis by blast
qed

lemma armDaily_result:
  "timers s c = Some ut \<Longrightarrow>
   armDaily e c u s =
     Inr (s\<lparr>timers := (timers s)(c \<mapsto> ut\<lparr>dailyTimer := Some (length (heap s))\<rparr>),
            heap := heap s @ [\<lparr>status = Armed,
                                deadline = now e + Until e (GetNextTime e (DailyTime u)),
                                callback = DailyCb c\<rparr>]\<rparr>)"
  by (simp add: armDaily_def AfterFunc_def setField_def)

lemma armWeekly_result:
  "timers s c = Some ut \<Longrightarrow>
   armWeekly e c u s =
     Inr (s\<lparr>timers := (timers s)(c \<mapsto> ut\<lparr>weeklyTimer := Some (length (heap s))\<rparr>),
            heap := heap s @ [\<lparr>status = Armed,
                                deadline = now e + Until e (GetNextWeekTime e (WeeklyTime u)),
                                callback = WeeklyCb c\<rparr>]\<rparr>)"
  by (simp add: armWeekly_def AfterFunc_def setField_def)

lemma atMidnight_result:
  "timers s c = Some ut \<Longrightarrow>
   scheduleLectureRemindersAtMidnight e c s =
     scheduleLectureReminders e c
       (s\<lparr>timers := (timers s)(c \<mapsto> ut\<lparr>lectureScheduler := Some (length (heap s))\<rparr>),
          heap := heap s @ [\<lparr>status = Armed,
                              deadline = now e + Until e (nextMidnight (now e)),
                              callback = MidnightCb c\<rparr>]\<rparr>)"
proof -
  assume a: "timers s c = Some ut"
  have "setField c (\<lambda>ut. ut\<lparr>lectureScheduler := Some (length (heap s))\<rparr>)
          (s\<lparr>heap := heap s @ [\<lparr>status = Armed,
                              deadline = now e + Until e (nextMidnight (now e)),
                              callback = MidnightCb c\<rparr>]\<rparr>) =
        Inr (s\<lparr>timers := (timers s)(c \<mapsto> ut\<lparr>lectureScheduler := Some (length (heap s))\<rparr>),
          heap := heap s @ [\<lparr>status = Armed,
                              deadline = now e + Until e (nextMidnight (now e)),
                              callback = MidnightCb c\<rparr>]\<rparr>)"
    using a by (simp add: setField_def)
  then show ?thesis
    by (simp add: scheduleLectureRemindersAtMidnight_def AfterFunc_def andThen_def)
qed

lemma ScheduleUser_found:
  assumes "GetUser e c = UserFound u"
  shows "\<exists>due m. ScheduleUser e c s =
     Inr ((CancelUser c s)\<lparr>timers := (timers s)(c \<mapsto>
            \<lparr>dailyTimer = Some (length (heap s)), weeklyTimer = Some (length (heap s) + 1),
             lectureTimers = [length (heap s) + 3 ..< length (heap s) + 3 + length due],
             lectureScheduler = Some (length (heap s) + 2)\<rparr>),
          heap := heap (CancelUser c s)
            @ [\<lparr>status = Armed, deadline = now e + Until e (GetNextTime e (DailyTime u)),
                callback = DailyCb c\<rparr>,
               \<lparr>status = Armed, deadline = now e + Until e (GetNextWeekTime e (WeeklyTime u)),
                callback = WeeklyCb c\<rparr>,
               \<lparr>status = Armed, deadline = now e + Until e (nextMidnight (now e)),
                callback = MidnightCb c\<rparr>]
            @ map (\<lambda>l. \<lparr>status = Armed, deadline = now e + Until e (reminderTime m l),
                         callback = ReminderCb c l m\<rparr>) due\<rparr>)"
proof -
  define s4 where "s4 =
     (CancelUser c s)\<lparr>timers := (timers s)(c \<mapsto>
            \<lparr>dailyTimer = Some (length (heap s)), weeklyTimer = Some (length (heap s) + 1),
             lectureTimers = [], lectureScheduler = Some (length (heap s) + 2)\<rparr>),
      heap := heap (CancelUser c s)
            @ [\<lparr>status = Armed, deadline = now e + Until e (GetNextTime e (DailyTime u)),
                callback = DailyCb c\<rparr>,
               \<lparr>status = Armed, deadline = now e + Until e (GetNextWeekTime e (WeeklyTime u)),
                callback = WeeklyCb c\<rparr>,
               \<lparr>status = Armed, deadline = now e + Until e (nextMidnight (now e)),
                callback = MidnightCb c\<rparr>]\<rparr>"
  have run: "ScheduleUser e c s = scheduleLectureReminders e c s4"
    using assms
    by (simp add: ScheduleUser_def andThen_def installTimers_def armDaily_result
        armWeekly_result atMidnight_result s4_def)
  have "timers s4 c = Some \<lparr>dailyTimer = Some (length (heap s)),
      weeklyTimer = Some (length (heap s) + 1),
      lectureTimers = [], lectureScheduler = Some (length (heap s) + 2)\<rparr>"
    by (simp add: s4_def)
  from replan_result [OF this, of e] obtain due m where
    "scheduleLectureReminders e c s4 = Inr (s4\<lparr>timers := (timers s4)(c \<mapsto>
        \<lparr>dailyTimer = Some (length (heap s)), weeklyTimer = Some (length (heap s) + 1),
         lectureTimers = [], lectureScheduler = Some (length (heap s) + 2)\<rparr>\<lparr>lectureTimers :=
                [length (heap s4) ..< length (heap s4) + length due]\<rparr>),
            heap := heap s4
                    @ map (\<lambda>l. \<lparr>status = Armed, deadline = now e + Until e (reminderTime m l),
                                 callback = ReminderCb c l m\<rparr>) due\<rparr>)"
    by auto
  then have "scheduleLectureReminders e c s4 =
     Inr ((CancelUser c s)\<lparr>timers := (timers s)(c \<mapsto>
            \<lparr>dailyTimer = Some (length (heap s)), weeklyTimer = Some (length (heap s) + 1),
             lectureTimers = [length (heap s) + 3 ..< length (heap s) + 3 + length due],
             lectureScheduler = Some (length (heap s) + 2)\<rparr>),
          heap := heap (CancelUser c s)
            @ [\<lparr>status = Armed, deadline = now e + Until e (GetNextTime e (DailyTime u)),
                callback = DailyCb c\<rparr>,
               \<lparr>status = Armed, deadline = now e + Until e (GetNextWeekTime e (WeeklyTime u)),
                callback = WeeklyCb c\<rparr>,
               \<lparr>status = Armed, deadline = now e + Until e (nextMidnight (now e)),
                callback = MidnightCb c\<rparr>]
            @ map (\<lambda>l. \<lparr>status = Armed, deadline = now e + Until e (reminderTime m l),
                         callback = ReminderCb c l m\<rparr>) due\<rparr>)"
    by (simp add: s4_def numeral_3_eq_3 del: upt_Suc)
  with run show ?thesis by auto
qed


section \<open>ScheduleUser, step by step\<close>

lemma tracked_refs:
  "tracked s j \<Longrightarrow> \<exists>ut. timers s (owner (callback (heap s ! j))) = Some ut \<and> j \<in> refs ut"
  by (auto simp: tracked_def refs_def split: callback.splits option.splits)

lemma tracked_frame:
  assumes "tracked s j" "callback (heap s' ! j) = callback (heap s ! j)"
    "timers s' (owner (callback (heap s ! j))) = timers s (owner (callback (heap s ! j)))"
  shows "tracked s' j"
  using assms by (auto simp: tracked_def split: callback.splits option.splits)

lemma wellFormed_reschedule:
  assumes wf: "wellFormed s"
    and t: "timers s' = (timers s)(c \<mapsto> ut')"
    and h: "heap s' = heap (CancelUser c s) @ new"
    and r: "refs ut' \<subseteq> {length (heap s) ..< length (heap s) + length new}"
    and n: "\<forall>k < length new. tracked s' (length (heap s) + k)"
  shows "wellFormed s'"
proof -
  have len: "length (heap s') = length (heap s) + length new"
    by (simp add: h)
  have valid: "i < length (heap s')" if "timers s' c' = Some ut" "i \<in> refs ut" for c' ut i
  proof (cases "c' = c")
    case True
    with that t r show ?thesis by (auto simp: len)
  next
    case False
    with that t have "timers s c' = Some ut" by simp
    with wf that have "i < length (heap s)" by (auto simp: wellFormed_def)
    then show ?thesis by (simp add: len)
  qed
  have tr: "tracked s' j" if j: "j < length (heap s')" and a: "status (heap s' ! j) = Armed" for j
  proof (cases "j < length (heap s)")
    case True
    then have same: "heap s' ! j = heap (CancelUser c s) ! j"
      by (simp add: h nth_append)
    with a True have "is_armed (CancelUser c s) j"
      by (simp add: is_armed_def)
    then have armed: "is_armed s j"
      and out: "case timers s c of None \<Rightarrow> True | Some ut \<Rightarrow> j \<notin> refs ut"
      by (simp_all add: CancelUser_armed)
    from armed wf True have trk: "tracked s j"
      by (auto simp: wellFormed_def is_armed_def)
    from tracked_refs [OF trk] out have "owner (callback (heap s ! j)) \<noteq> c"
      by auto
    with t have "timers s' (owner (callback (heap s ! j))) = timers s (owner (callback (heap s ! j)))"
      by simp
    moreover have "callback (heap s' ! j) = callback (heap s ! j)"
      by (simp add: same)
    ultimately show ?thesis using trk by (blast intro: tracked_frame)
  next
    case False
    with j len have "j - length (heap s) < length new" by simp
    with n have "tracked s' (length (heap s) + (j - length (heap s)))" by blast
    with False show ?thesis by simp
  qed
  show ?thesis
    unfolding wellFormed_def using valid tr by blast
qed


lemma filter_eq_upt: "filter (\<lambda>j. j = d) [0..<n] = (if d < n then [d] else [])"
  by (induction n) auto

lemma armedWith_single:
  assumes d: "is_armed s d" "callback (heap s ! d) = f"
    and u: "\<And>j. is_armed s j \<Longrightarrow> callback (heap s ! j) = f \<Longrightarrow> j = d"
  shows "armedWith s f = [d]"
proof -
  have "(is_armed s j \<and> callback (heap s ! j) = f) = (j = d)" for j
    using d u [of j] by blast
  then have "armedWith s f = filter (\<lambda>j. j = d) [0..<length (heap s)]"
    by (simp add: armedWith_def)
  moreover have "d < length (heap s)"
    using d(1) by (simp add: is_armed_def)
  ultimately show ?thesis
    by (simp add: filter_eq_upt)
qed

lemma wellFormed_tracked: "wellFormed s \<Longrightarrow> is_armed s j \<Longrightarrow> tracked s j"
  by (simp add: wellFormed_def is_armed_def)

lemma ScheduleUser_summary:
  assumes "GetUser e c = UserFound u"
  shows "\<exists>s' ut. ScheduleUser e c s = Inr s' \<and> timers s' = (timers s)(c \<mapsto> ut)
     \<and> dailyTimer ut = Some (length (heap s)) \<and> weeklyTimer ut = Some (length (heap s) + 1)
     \<and> lectureScheduler ut = Some (length (heap s) + 2)
     \<and> length (heap s) + 3 \<le> length (heap s')
     \<and> is_armed s' (length (heap s)) \<and> callback (heap s' ! length (heap s)) = DailyCb c
     \<and> is_armed s' (length (heap s) + 1)
     \<and> callback (heap s' ! (length (heap s) + 1)) = WeeklyCb c
     \<and> is_armed s' (length (heap s) + 2)
     \<and> callback (heap s' ! (length (heap s) + 2)) = MidnightCb c
     \<and> outbox s' = outbox s
     \<and> (\<forall>j<length (heap s). is_armed s' j = is_armed (CancelUser c s) j)
     \<and> (wellFormed s \<longrightarrow> wellFormed s')"
proof -
  define n where "n = length (heap s)"
  from ScheduleUser_found [OF assms, of s] obtain due m where
    run: "ScheduleUser e c s =
     Inr ((CancelUser c s)\<lparr>timers := (timers s)(c \<mapsto>
            \<lparr>dailyTimer = Some (length (heap s)), weeklyTimer = Some (length (heap s) + 1),
             lectureTimers = [length (heap s) + 3 ..< length (heap s) + 3 + length due],
             lectureScheduler = Some (length (heap s) + 2)\<rparr>),
          heap := heap (CancelUser c s)
            @ [\<lparr>status = Armed, deadline = now e + Until e (GetNextTime e (DailyTime u)),
                callback = DailyCb c\<rparr>,
               \<lparr>status = Armed, deadline = now e + Until e (GetNextWeekTime e (WeeklyTime u)),
                callback = WeeklyCb c\<rparr>,
               \<lparr>status = Armed, deadline = now e + Until e (nextMidnight (now e)),
                callback = MidnightCb c\<rparr>]
            @ map (\<lambda>l. \<lparr>status = Armed, deadline = now e + Until e (reminderTime m l),
                         callback = ReminderCb c l m\<rparr>) due\<rparr>)"
    by blast
  define ut where "ut =
     \<lparr>dailyTimer = Some n, weeklyTimer = Some (n + 1),
      lectureTimers = [n + 3 ..< n + 3 + length due], lectureScheduler = Some (n + 2)\<rparr>"
  define new where "new =
     [\<lparr>status = Armed, deadline = now e + Until e (GetNextTime e (DailyTime u)),
       callback = DailyCb c\<rparr>,
      \<lparr>status = Armed, deadline = now e + Until e (GetNextWeekTime e (WeeklyTime u)),
       callback = WeeklyCb c\<rparr>,
      \<lparr>status = Armed, deadline = now e + Until e (nextMidnight (now e)),
       callback = MidnightCb c\<rparr>]
     @ map (\<lambda>l. \<lparr>status = Armed, deadline = now e + Until e (reminderTime m l),
                  callback = ReminderCb c l m\<rparr>) due"
  define s' where
    "s' = (CancelUser c s)\<lparr>timers := (timers s)(c \<mapsto> ut), heap := heap (CancelUser c s) @ new\<rparr>"
  have run': "ScheduleUser e c s = Inr s'"
    unfolding run s'_def ut_def new_def n_def ..
  have t: "timers s' = (timers s)(c \<mapsto> ut)" by (simp add: s'_def)
  have h: "heap s' = heap (CancelUser c s) @ new" by (simp add: s'_def)
  have o: "outbox s' = outbox s" by (simp add: s'_def)
  have lnew: "length new = 3 + length due" by (simp add: new_def)
  have len: "length (heap s') = n + 3 + length due" by (simp add: h lnew n_def)
  have at: "heap s' ! (n + k) = new ! k" for k
    using nth_append_length_plus [of "heap (CancelUser c s)" new k] by (simp add: h n_def)
  have armed_new: "is_armed s' (n + k)" if "k < length new" for k
  proof -
    have "\<forall>x \<in> set new. status x = Armed" by (auto simp: new_def)
    with that have "status (new ! k) = Armed" by simp
    with that show ?thesis by (simp add: is_armed_def at len lnew)
  qed
  have cb0: "callback (heap s' ! n) = DailyCb c"
    using at [of 0] by (simp add: new_def)
  have cb1: "callback (heap s' ! (n + 1)) = WeeklyCb c"
    using at [of 1] by (simp add: new_def)
  have cb2: "callback (heap s' ! (n + 2)) = MidnightCb c"
    using at [of 2] by (simp add: new_def)
  have cb3: "callback (heap s' ! (n + 3 + i)) = ReminderCb c (due ! i) m" if "i < length due" for i
    using at [of "3 + i"] that by (simp add: new_def add.assoc)
  have a0: "is_armed s' n" using armed_new [of 0] by (simp add: lnew)
  have a1: "is_armed s' (n + 1)" using armed_new [of 1] by (simp add: lnew)
  have a2: "is_armed s' (n + 2)" using armed_new [of 2] by (simp add: lnew)
  have old: "is_armed s' j = is_armed (CancelUser c s) j" if "j < length (heap s)" for j
    using that by (simp add: is_armed_def h nth_append)
  have wf: "wellFormed s'" if "wellFormed s"
  proof (rule wellFormed_reschedule [OF that t h])
    show "refs ut \<subseteq> {length (heap s) ..< length (heap s) + length new}"
      by (auto simp: refs_def ut_def lnew n_def)
    show "\<forall>k < length new. tracked s' (length (heap s) + k)"
    proof (intro allI impI)
      fix k assume k: "k < length new"
      consider "k = 0" | "k = 1" | "k = 2" | "3 \<le> k" by linarith
      then show "tracked s' (length (heap s) + k)"
      proof cases
        case 1
        then show ?thesis using cb0 by (simp add: tracked_def t ut_def n_def)
      next
        case 2
        then show ?thesis using cb1 by (simp add: tracked_def t ut_def n_def)
      next
        case 3
        then show ?thesis using cb2 by (simp add: tracked_def t ut_def n_def)
      next
        case 4
        then obtain i where i: "k = 3 + i" using nat_le_iff_add by blast
        with k have il: "i < length due" by (simp add: lnew)
        have "n + 3 + i = n + k" by (simp add: i)
        with cb3 [OF il] have "callback (heap s' ! (n + k)) = ReminderCb c (due ! i) m"
          by (simp only:)
        moreover have "n + k \<in> set (lectureTimers ut)"
          using il by (simp add: ut_def i)
        ultimately show ?thesis
          by (simp add: tracked_def t n_def)
      qed
    qed
  qed
  have final: "ScheduleUser e c s = Inr s' \<and> timers s' = (timers s)(c \<mapsto> ut)
     \<and> dailyTimer ut = Some (length (heap s)) \<and> weeklyTimer ut = Some (length (heap s) + 1)
     \<and> lectureScheduler ut = Some (length (heap s) + 2)
     \<and> length (heap s) + 3 \<le> length (heap s')
     \<and> is_armed s' (length (heap s)) \<and> callback (heap s' ! length (heap s)) = DailyCb c
     \<and> is_armed s' (length (heap s) + 1)
     \<and> callback (heap s' ! (length (heap s) + 1)) = WeeklyCb c
     \<and> is_armed s' (length (heap s) + 2)
     \<and> callback (heap s' ! (length (heap s) + 2)) = MidnightCb c
     \<and> outbox s' = outbox s
     \<and> (\<forall>j<length (heap s). is_armed s' j = is_armed (CancelUser c s) j)
     \<and> (wellFormed s \<longrightarrow> wellFormed s')"
    using run' t a0 a1 a2 cb0 cb1 cb2 old wf o len
    by (simp add: ut_def n_def)
  show ?thesis
    by (rule exI [of _ s'], rule exI [of _ ut]) (fact final)
qed

lemma wellFormed_exampleScheduler: "wellFormed exampleScheduler"
  by (simp add: wellFormed_def exampleScheduler_def refs_def tracked_def less_Suc_eq
      numeral_eq_Suc all_conj_distrib)

lemma tracked_daily:
  "tracked s j \<Longrightarrow> callback (heap s ! j) = DailyCb c \<Longrightarrow>
   \<exists>ut. timers s c = Some ut \<and> dailyTimer ut = Some j"
  by (auto simp: tracked_def split: option.splits)

lemma tracked_weekly:
  "tracked s j \<Longrightarrow> callback (heap s ! j) = WeeklyCb c \<Longrightarrow>
   \<exists>ut. timers s c = Some ut \<and> weeklyTimer ut = Some j"
  by (auto simp: tracked_def split: option.splits)

section \<open>The digests\<close>

lemma sendMessage_timers [simp]: "timers (sendMessage c text s) = timers s"
  by (simp add: sendMessage_def)

lemma sendMessage_heap [simp]: "heap (sendMessage c text s) = heap s"
  by (simp add: sendMessage_def)

lemma sendDailyTimetable_sends: "\<exists>text. sendDailyTimetable e c s = sendMessage c text s"
  unfolding sendDailyTimetable_def
  by (cases "GetUser e c") (auto split: sum.splits)

lemma sendWeeklyTimetable_sends: "\<exists>text. sendWeeklyTimetable e c s = sendMessage c text s"
  unfolding sendWeeklyTimetable_def
  by (cases "GetUser e c") (auto split: sum.splits prod.splits)

section \<open>StopAll and firing\<close>

lemma StopAll_timers: "timers (StopAll ks s) = (\<lambda>c. if c \<in> set ks then None else timers s c)"
  unfolding StopAll_def by (induction ks arbitrary: s) (auto simp: fun_eq_iff)

lemma StopAll_outbox [simp]: "outbox (StopAll ks s) = outbox s"
  unfolding StopAll_def by (induction ks arbitrary: s) simp_all

lemma StopAll_length [simp]: "length (heap (StopAll ks s)) = length (heap s)"
  unfolding StopAll_def by (induction ks arbitrary: s) simp_all

lemma StopAll_armed:
  "is_armed (StopAll ks s) j \<longleftrightarrow>
     is_armed s j \<and> (\<forall>c \<in> set ks. case timers s c of None \<Rightarrow> True | Some ut \<Rightarrow> j \<notin> refs ut)"
  unfolding StopAll_def
proof (induction ks arbitrary: s)
  case Nil
  then show ?case by simp
next
  case (Cons k ks)
  have "is_armed (fold CancelUser ks (CancelUser k s)) j \<longleftrightarrow>
        is_armed (CancelUser k s) j
        \<and> (\<forall>c \<in> set ks. case timers (CancelUser k s) c of None \<Rightarrow> True
                           | Some ut \<Rightarrow> j \<notin> refs ut)"
    by (rule Cons.IH)
  also have "\<dots> \<longleftrightarrow> is_armed s j
        \<and> (\<forall>c \<in> set (k # ks). case timers s c of None \<Rightarrow> True | Some ut \<Rightarrow> j \<notin> refs ut)"
    by (auto simp: CancelUser_armed split: option.splits if_splits)
  finally show ?case by simp
qed

lemma fire_not_armed: "\<not> is_armed s i \<Longrightarrow> fire e i s = Inr s"
  by (simp add: fire_def)

section \<open>Durations\<close>

lemma wrap64_id: "- (2 ^ 63) \<le> x \<Longrightarrow> x < 2 ^ 63 \<Longrightarrow> wrap64 x = x"
  by (simp add: wrap64_def)

lemma reminderTime_in_range:
  assumes "- 153722867 \<le> m" "m \<le> 153722867"
  shows "reminderTime m l = Start l - m * Minute"
proof -
  have 1: "wrap64 m = m" using assms by (intro wrap64_id) simp_all
  have 2: "wrap64 (- m) = - m" using assms by (intro wrap64_id) simp_all
  have 3: "wrap64 (- (m * Minute)) = - (m * Minute)"
    using assms by (intro wrap64_id) (simp_all add: Minute_def Second_def)
  show ?thesis by (simp add: reminderTime_def 1 2 3)
qed

lemma armedReminders_all:
  assumes "r = Inr s'" "timers s' chatID = Some ut'" "\<forall>i \<in> set (lectureTimers ut'). is_armed s' i"
  shows "armedReminders r chatID = map (\<lambda>i. callback (heap s' ! i)) (lectureTimers ut')"
proof -
  have "filter (is_armed s') (lectureTimers ut') = lectureTimers ut'"
    using assms(3) by (simp add: filter_id_conv)
  with assms(1,2) show ?thesis by (simp add: armedReminders_def)
qed

section \<open>Weekdays\<close>

lemma Day_pos: "0 < Day"
  by (simp add: Day_def Second_def)

lemma Weekday_AddDate: "Weekday (AddDate t k) = (Weekday t + k) mod 7"
proof -
  have "(t + k * Day) div Day = t div Day + k"
    using Day_pos by simp
  then show ?thesis
    by (simp add: Weekday_def AddDate_def mod_simps algebra_simps)
qed

lemma Weekday_range: "0 \<le> Weekday t \<and> Weekday t < 7"
  by (simp add: Weekday_def)

section \<open>Running the statements of ScheduleUser\<close>

lemma andThen_Inr [simp]: "andThen (Inr a) f = f a"
  by (simp add: andThen_def)

lemma andThen_Inl [simp]: "andThen (Inl e) f = Inl e"
  by (simp add: andThen_def)





section \<open>Well-formedness is kept\<close>

text \<open>
  The empty scheduler is well-formed, and every operation and every firing of a timer,
  run one at a time, keeps a well-formed scheduler well-formed; a firing never writes
  through a nil timer set there.
\<close>

lemma wellFormed_NewScheduler: "wellFormed NewScheduler"
  by (simp add: wellFormed_def NewScheduler_def)

lemma tracked_outbox_update [simp]: "tracked (s\<lparr>outbox := m\<rparr>) i = tracked s i"
  by (simp add: tracked_def split: callback.splits)

lemma wellFormed_sendMessage: "wellFormed s \<Longrightarrow> wellFormed (sendMessage c text s)"
  by (simp add: wellFormed_def sendMessage_def)

lemma wellFormedI:
  assumes "\<And>c ut i. timers s c = Some ut \<Longrightarrow> i \<in> refs ut \<Longrightarrow> i < length (heap s)"
    and "\<And>i. is_armed s i \<Longrightarrow> tracked s i"
  shows "wellFormed s"
  using assms unfolding wellFormed_def is_armed_def by blast

lemma wellFormed_valid:
  "wellFormed s \<Longrightarrow> timers s c = Some ut \<Longrightarrow> i \<in> refs ut \<Longrightarrow> i < length (heap s)"
  unfolding wellFormed_def by blast

lemma wellFormed_CancelUser:
  assumes wf: "wellFormed s"
  shows "wellFormed (CancelUser c s)"
proof (rule wellFormedI)
  fix c' ut i
  assume "timers (CancelUser c s) c' = Some ut" "i \<in> refs ut"
  then have "timers s c' = Some ut" by (simp split: if_splits)
  from wellFormed_valid [OF wf this \<open>i \<in> refs ut\<close>] show "i < length (heap (CancelUser c s))"
    by simp
next
  fix i
  assume "is_armed (CancelUser c s) i"
  then have armed: "is_armed s i"
    and out: "case timers s c of None \<Rightarrow> True | Some ut \<Rightarrow> i \<notin> refs ut"
    by (simp_all add: CancelUser_armed)
  from wellFormed_tracked [OF wf armed] have trk: "tracked s i" .
  from tracked_refs [OF trk] out have "owner (callback (heap s ! i)) \<noteq> c"
    by auto
  then have "timers (CancelUser c s) (owner (callback (heap s ! i)))
      = timers s (owner (callback (heap s ! i)))"
    by simp
  with trk show "tracked (CancelUser c s) i"
    by (blast intro: tracked_frame CancelUser_callback)
qed

lemma wellFormed_StopAll: "wellFormed s \<Longrightarrow> wellFormed (StopAll ks s)"
  unfolding StopAll_def by (induction ks arbitrary: s) (simp_all add: wellFormed_CancelUser)

lemma wellFormed_replan:
  assumes wf: "wellFormed s" and t: "timers s c = Some ut"
  shows "\<exists>s'. scheduleLectureReminders e c s = Inr s' \<and> wellFormed s'
     \<and> (\<exists>ut'. timers s' = (timers s)(c \<mapsto> ut') \<and> dailyTimer ut' = dailyTimer ut
           \<and> weeklyTimer ut' = weeklyTimer ut \<and> lectureScheduler ut' = lectureScheduler ut)
     \<and> length (heap s) \<le> length (heap s')
     \<and> (\<forall>j < length (heap s). (is_armed s' j \<longrightarrow> is_armed s j)
           \<and> callback (heap s' ! j) = callback (heap s ! j))
     \<and> (\<forall>j. length (heap s) \<le> j \<and> j < length (heap s') \<longrightarrow>
           (\<exists>l m. callback (heap s' ! j) = ReminderCb c l m))"
proof -
  from replan_result [OF t, of e] obtain due m where
    run: "scheduleLectureReminders e c s =
     Inr (s\<lparr>timers := (timers s)(c \<mapsto> ut\<lparr>lectureTimers :=
                [length (heap s) ..< length (heap s) + length due]\<rparr>),
            heap := heap (fold Stop (lectureTimers ut) s)
                    @ map (\<lambda>l. \<lparr>status = Armed, deadline = now e + Until e (reminderTime m l),
                                 callback = ReminderCb c l m\<rparr>) due\<rparr>)"
    by blast
  define n where "n = length (heap s)"
  define ut' where "ut' = ut\<lparr>lectureTimers := [n ..< n + length due]\<rparr>"
  define new where "new = map (\<lambda>l. \<lparr>status = Armed,
      deadline = now e + Until e (reminderTime m l), callback = ReminderCb c l m\<rparr>) due"
  define s' where "s' = s\<lparr>timers := (timers s)(c \<mapsto> ut'),
      heap := heap (fold Stop (lectureTimers ut) s) @ new\<rparr>"
  have run': "scheduleLectureReminders e c s = Inr s'"
    unfolding run s'_def ut'_def new_def n_def ..
  have ts: "timers s' = (timers s)(c \<mapsto> ut')" by (simp add: s'_def)
  have h: "heap s' = heap (fold Stop (lectureTimers ut) s) @ new" by (simp add: s'_def)
  have len: "length (heap s') = n + length due" by (simp add: h new_def n_def)
  have old: "is_armed s' j = (is_armed s j \<and> j \<notin> set (lectureTimers ut))"
    "callback (heap s' ! j) = callback (heap s ! j)" if "j < n" for j
  proof -
    from that have "heap s' ! j = heap (fold Stop (lectureTimers ut) s) ! j"
      by (simp add: h nth_append n_def)
    moreover from that have "j < length (heap s')" by (simp add: len)
    ultimately show "is_armed s' j = (is_armed s j \<and> j \<notin> set (lectureTimers ut))"
      "callback (heap s' ! j) = callback (heap s ! j)"
      using that fold_Stop_armed [of "lectureTimers ut" s j]
      by (simp_all add: is_armed_def n_def)
  qed
  have fresh: "is_armed s' (n + k)" "callback (heap s' ! (n + k)) = ReminderCb c (due ! k) m"
    if "k < length due" for k
  proof -
    have "heap s' ! (n + k) = new ! k"
      using nth_append_length_plus [of "heap (fold Stop (lectureTimers ut) s)" new k]
      by (simp add: h n_def)
    with that show "is_armed s' (n + k)" "callback (heap s' ! (n + k)) = ReminderCb c (due ! k) m"
      by (simp_all add: is_armed_def len new_def)
  qed
  have wf': "wellFormed s'"
  proof (rule wellFormedI)
    fix c' u i
    assume a: "timers s' c' = Some u" "i \<in> refs u"
    show "i < length (heap s')"
    proof (cases "c' = c")
      case True
      with a ts have u: "u = ut'" by simp
      from a(2) consider "i \<in> refs ut" | "i \<in> set (lectureTimers ut')"
        unfolding u by (auto simp: refs_def ut'_def)
      then show ?thesis
      proof cases
        case 1
        from wellFormed_valid [OF wf t 1] show ?thesis by (simp add: len n_def)
      next
        case 2
        then show ?thesis by (simp add: ut'_def len)
      qed
    next
      case False
      with a ts have "timers s c' = Some u" by simp
      from wellFormed_valid [OF wf this a(2)] show ?thesis by (simp add: len n_def)
    qed
  next
    fix j
    assume a: "is_armed s' j"
    then have jl: "j < n + length due" by (simp add: is_armed_def len)
    show "tracked s' j"
    proof (cases "j < n")
      case True
      from old [OF True] a have armed: "is_armed s j" and out: "j \<notin> set (lectureTimers ut)"
        and cb: "callback (heap s' ! j) = callback (heap s ! j)"
        by simp_all
      from wellFormed_tracked [OF wf armed] have trk: "tracked s j" .
      show ?thesis
      proof (cases "owner (callback (heap s ! j)) = c")
        case False
        with ts have "timers s' (owner (callback (heap s ! j)))
            = timers s (owner (callback (heap s ! j)))"
          by simp
        with trk cb show ?thesis by (blast intro: tracked_frame)
      next
        case True
        with trk out t show ?thesis
          by (cases "callback (heap s ! j)")
            (auto simp: tracked_def cb ts ut'_def)
      qed
    next
      case False
      with jl have k: "j = n + (j - n)" "j - n < length due" by simp_all
      from fresh(2) [OF k(2)] k(1) have "callback (heap s' ! j) = ReminderCb c (due ! (j - n)) m"
        by simp
      moreover from False jl have "j \<in> set (lectureTimers ut')"
        by (simp add: ut'_def)
      ultimately show ?thesis by (simp add: tracked_def ts)
    qed
  qed
  have new_cb: "\<exists>l m. callback (heap s' ! j) = ReminderCb c l m"
    if "length (heap s) \<le> j \<and> j < length (heap s')" for j
  proof -
    from that have k: "j = n + (j - n)" "j - n < length due" by (auto simp: len n_def)
    from fresh(2) [OF k(2)] k(1) show ?thesis by auto
  qed
  have frame: "\<exists>ut'. timers s' = (timers s)(c \<mapsto> ut') \<and> dailyTimer ut' = dailyTimer ut
           \<and> weeklyTimer ut' = weeklyTimer ut \<and> lectureScheduler ut' = lectureScheduler ut"
    using ts by (intro exI [of _ ut']) (simp add: ut'_def)
  have older: "\<forall>j < length (heap s). (is_armed s' j \<longrightarrow> is_armed s j)
           \<and> callback (heap s' ! j) = callback (heap s ! j)"
    using old by (simp add: n_def)
  have "length (heap s) \<le> length (heap s')" by (simp add: len n_def)
  with run' wf' frame older new_cb show ?thesis by blast
qed


lemma wellFormed_atMidnight:
  assumes wf: "wellFormed s" and t: "timers s c = Some ut"
    and free: "\<And>i. lectureScheduler ut = Some i \<Longrightarrow> \<not> is_armed s i"
  shows "\<exists>s'. scheduleLectureRemindersAtMidnight e c s = Inr s' \<and> wellFormed s'"
proof -
  define n where "n = length (heap s)"
  define ut' where "ut' = ut\<lparr>lectureScheduler := Some n\<rparr>"
  define s1 where "s1 = s\<lparr>timers := (timers s)(c \<mapsto> ut'),
      heap := heap s @ [\<lparr>status = Armed, deadline = now e + Until e (nextMidnight (now e)),
                          callback = MidnightCb c\<rparr>]\<rparr>"
  have run: "scheduleLectureRemindersAtMidnight e c s = scheduleLectureReminders e c s1"
    unfolding s1_def ut'_def n_def by (rule atMidnight_result [OF t])
  have ts: "timers s1 = (timers s)(c \<mapsto> ut')" by (simp add: s1_def)
  have len: "length (heap s1) = Suc n" by (simp add: s1_def n_def)
  have old: "is_armed s1 j = is_armed s j" "callback (heap s1 ! j) = callback (heap s ! j)"
    if "j < n" for j
    using that by (simp_all add: s1_def is_armed_def nth_append n_def)
  have last: "callback (heap s1 ! n) = MidnightCb c"
    by (simp add: s1_def n_def)
  have wf1: "wellFormed s1"
  proof (rule wellFormedI)
    fix c' u i
    assume a: "timers s1 c' = Some u" "i \<in> refs u"
    show "i < length (heap s1)"
    proof (cases "c' = c")
      case True
      with a ts have u: "u = ut'" by simp
      from a(2) consider "i \<in> refs ut" | "i = n"
        unfolding u by (auto simp: refs_def ut'_def)
      then show ?thesis
      proof cases
        case 1
        from wellFormed_valid [OF wf t 1] show ?thesis by (simp add: len n_def)
      next
        case 2
        then show ?thesis by (simp add: len)
      qed
    next
      case False
      with a ts have "timers s c' = Some u" by simp
      from wellFormed_valid [OF wf this a(2)] show ?thesis by (simp add: len n_def)
    qed
  next
    fix j
    assume a: "is_armed s1 j"
    then have jl: "j < Suc n" by (simp add: is_armed_def len)
    show "tracked s1 j"
    proof (cases "j < n")
      case True
      from old [OF True] a have armed: "is_armed s j"
        and cb: "callback (heap s1 ! j) = callback (heap s ! j)"
        by simp_all
      from wellFormed_tracked [OF wf armed] have trk: "tracked s j" .
      show ?thesis
      proof (cases "owner (callback (heap s ! j)) = c")
        case False
        with ts have "timers s1 (owner (callback (heap s ! j)))
            = timers s (owner (callback (heap s ! j)))"
          by simp
        with trk cb show ?thesis by (blast intro: tracked_frame)
      next
        case True
        with trk t free [of j] armed show ?thesis
          by (cases "callback (heap s ! j)")
            (auto simp: tracked_def cb ts ut'_def)
      qed
    next
      case False
      with jl have "j = n" by simp
      with last show ?thesis by (simp add: tracked_def ts ut'_def)
    qed
  qed
  have "timers s1 c = Some ut'" by (simp add: ts)
  from wellFormed_replan [OF wf1 this, of e] run show ?thesis by auto
qed

lemma ScheduleUser_wellFormed:
  assumes "wellFormed s"
  shows "\<exists>s'. ScheduleUser e c s = Inr s' \<and> wellFormed s'"
proof (cases "GetUser e c")
  case (UserFound u)
  from ScheduleUser_summary [OF this, of s] assms show ?thesis by blast
next
  case UserMissing
  with assms show ?thesis by (simp add: ScheduleUser_def)
next
  case (UserError err)
  with assms show ?thesis by (simp add: ScheduleUser_def)
qed

lemma wellFormed_fire:
  assumes wf: "wellFormed s"
  shows "\<exists>s'. fire e i s = Inr s' \<and> wellFormed s'"
proof (cases "is_armed s i")
  case False
  with wf show ?thesis by (simp add: fire_def)
next
  case True
  define s1 where "s1 = s\<lparr>heap := (heap s)[i := (heap s ! i)\<lparr>status := Fired\<rparr>]\<rparr>"
  have run: "fire e i s = runCallback e (callback (heap s ! i)) s1"
    using True by (simp add: fire_def s1_def)
  have ts: "timers s1 = timers s" and len: "length (heap s1) = length (heap s)"
    by (simp_all add: s1_def)
  have il: "i < length (heap s)" using True by (simp add: is_armed_def)
  have cb: "callback (heap s1 ! j) = callback (heap s ! j)" for j
    using il by (cases "j = i") (simp_all add: s1_def)
  have armed: "is_armed s1 j = (is_armed s j \<and> j \<noteq> i)" for j
    by (cases "j = i") (auto simp: s1_def is_armed_def)
  from wellFormed_tracked [OF wf True] have trk: "tracked s i" .
  have wf1: "wellFormed s1"
  proof (rule wellFormedI)
    fix c ut j assume "timers s1 c = Some ut" "j \<in> refs ut"
    with wellFormed_valid [OF wf, of c ut j] show "j < length (heap s1)"
      by (simp add: ts len)
  next
    fix j assume "is_armed s1 j"
    then have "is_armed s j" by (simp add: armed)
    from wellFormed_tracked [OF wf this] show "tracked s1 j"
      by (rule tracked_frame) (simp_all add: cb ts)
  qed
  show ?thesis
  proof (cases "callback (heap s ! i)")
    case (DailyCb c)
    obtain msg where "sendDailyTimetable e c s1 = sendMessage c msg s1"
      using sendDailyTimetable_sends by blast
    with wellFormed_sendMessage [OF wf1] have "wellFormed (sendDailyTimetable e c s1)"
      by simp
    from ScheduleUser_wellFormed [OF this, of e c] show ?thesis
      by (simp add: run DailyCb runCallback_def)
  next
    case (WeeklyCb c)
    obtain msg where "sendWeeklyTimetable e c s1 = sendMessage c msg s1"
      using sendWeeklyTimetable_sends by blast
    with wellFormed_sendMessage [OF wf1] have "wellFormed (sendWeeklyTimetable e c s1)"
      by simp
    from ScheduleUser_wellFormed [OF this, of e c] show ?thesis
      by (simp add: run WeeklyCb runCallback_def)
  next
    case (MidnightCb c)
    with trk obtain ut where t: "timers s c = Some ut" and sch: "lectureScheduler ut = Some i"
      by (auto simp: tracked_def split: option.splits)
    from t have t1: "timers s1 c = Some ut" by (simp add: ts)
    from wellFormed_replan [OF wf1 t1, of e] obtain s2 ut' where
      r2: "scheduleLectureReminders e c s1 = Inr s2" and wf2: "wellFormed s2"
      and t2: "timers s2 = (timers s1)(c \<mapsto> ut')" "lectureScheduler ut' = lectureScheduler ut"
      and old: "\<forall>j < length (heap s1). (is_armed s2 j \<longrightarrow> is_armed s1 j)
           \<and> callback (heap s2 ! j) = callback (heap s1 ! j)"
      by blast
    have "i < length (heap s1)" using True by (simp add: is_armed_def len)
    with old armed [of i] have "\<not> is_armed s2 i" by blast
    with sch t2 have free: "\<And>j. lectureScheduler ut' = Some j \<Longrightarrow> \<not> is_armed s2 j"
      by simp
    have "timers s2 c = Some ut'" by (simp add: t2)
    from wellFormed_atMidnight [OF wf2 this free, of e] show ?thesis
      by (simp add: run MidnightCb runCallback_def r2)
  next
    case (ReminderCb c l m)
    with wellFormed_sendMessage [OF wf1] show ?thesis
      by (simp add: run runCallback_def)
  qed
qed

section \<open>What StopAll does to each timer\<close>

lemma stopTimer_idem [simp]: "stopTimer (stopTimer t) = stopTimer t"
  by (simp add: stopTimer_def)

lemma stopTimer_not_armed: "status t \<noteq> Armed \<Longrightarrow> stopTimer t = t"
  by (simp add: stopTimer_def)

lemma Stop_nth:
  "j < length (heap s) \<Longrightarrow>
   heap (Stop i s) ! j = (if j = i then stopTimer (heap s ! j) else heap s ! j)"
  by (simp add: Stop_def is_armed_def stopTimer_def)

lemma StopIfSet_nth:
  "j < length (heap s) \<Longrightarrow>
   heap (StopIfSet t s) ! j = (if j \<in> set_option t then stopTimer (heap s ! j) else heap s ! j)"
  by (cases t) (simp_all add: StopIfSet_def Stop_nth)

lemma fold_Stop_nth:
  "j < length (heap s) \<Longrightarrow>
   heap (fold Stop is s) ! j = (if j \<in> set is then stopTimer (heap s ! j) else heap s ! j)"
  by (induction "is" arbitrary: s) (simp_all add: Stop_nth)

lemma CancelUser_nth:
  "j < length (heap s) \<Longrightarrow>
   heap (CancelUser c s) ! j =
     (case timers s c of
        None \<Rightarrow> heap s ! j
      | Some ut \<Rightarrow> if j \<in> refs ut then stopTimer (heap s ! j) else heap s ! j)"
  by (simp add: CancelUser_def Let_def fold_Stop_nth StopIfSet_nth refs_def split: option.splits)

lemma StopAll_nth:
  "j < length (heap s) \<Longrightarrow>
   heap (StopAll ks s) ! j =
     (if \<exists>c \<in> set ks. \<exists>ut. timers s c = Some ut \<and> j \<in> refs ut
      then stopTimer (heap s ! j) else heap s ! j)"
  unfolding StopAll_def
proof (induction ks arbitrary: s)
  case Nil
  then show ?case by simp
next
  case (Cons k ks)
  have l: "j < length (heap (CancelUser k s))" using Cons.prems by simp
  show ?case
    by (simp add: Cons.IH [OF l] CancelUser_nth [OF Cons.prems] split: option.splits)
       (auto split: if_splits)
qed


lemma overlap_run:
  "interleave
     (ScheduleUserSteps (exampleEnv (clock 19884 10 30) (UserFound exampleUser) (Inr [])) 1
        exampleUser)
     (ScheduleUserSteps (exampleEnv (clock 19884 10 30) (UserFound exampleUser) (Inr [])) 1
        exampleUser)
     [True, True, False, False, True, False] NewScheduler = Inr raceResult"
proof -
  have n4: "Suc (Suc (Suc (Suc 0))) = 4" by simp
  show ?thesis
    by (simp add: ScheduleUserSteps_def NewScheduler_def CancelUser_def installTimers_def
        armDaily_def armWeekly_def scheduleLectureRemindersAtMidnight_def
        scheduleLectureReminders_def cancelLectureTimers_def AfterFunc_def setField_def
        Until_def Sub_def nextMidnight_def AddDate_def exampleEnv_def exampleUser_def
        raceResult_def clock_def Day_def Minute_def Second_def StopIfSet_def n4)
qed

section \<open>The instants of a run\<close>

lemma instants_not_Nil [simp]: "instants fs s \<noteq> []"
  by (cases fs) simp_all










lemma length_instants:
  "\<forall>r \<in> set (instants fs s). \<exists>s'. r = Inr s' \<Longrightarrow> length (instants fs s) = Suc (length fs)"
  by (induction fs arbitrary: s) (auto split: sum.splits)

section \<open>Properties of the scheduler\<close>

text \<open>
  C1. When the user record can be read, \<^verbatim>\<open>ScheduleUser\<close> returns, and the identity's
  timer set then holds one daily timer and one weekly timer, different and both armed.
  The map holds one timer set for an identity, being a map. In a well-formed scheduler
  these two are moreover the only armed daily and weekly timers of the identity in the
  whole runtime, and no timer of the set that was replaced is armed any more.
\<close>

theorem ScheduleUser_one_daily_one_weekly:
  assumes "GetUser e chatID = UserFound u"
  shows "\<exists>s' ut d w. ScheduleUser e chatID s = Inr s' \<and> timers s' chatID = Some ut
     \<and> dailyTimer ut = Some d \<and> weeklyTimer ut = Some w \<and> d \<noteq> w
     \<and> is_armed s' d \<and> callback (heap s' ! d) = DailyCb chatID
     \<and> is_armed s' w \<and> callback (heap s' ! w) = WeeklyCb chatID
     \<and> (wellFormed s \<longrightarrow>
          armedWith s' (DailyCb chatID) = [d] \<and> armedWith s' (WeeklyCb chatID) = [w]
          \<and> (\<forall>ut0. timers s chatID = Some ut0 \<longrightarrow> (\<forall>i \<in> refs ut0. \<not> is_armed s' i)))"
proof -
  from ScheduleUser_summary [OF assms, of s] obtain s' ut where
    run: "ScheduleUser e chatID s = Inr s'" and t: "timers s' = (timers s)(chatID \<mapsto> ut)"
    and d: "dailyTimer ut = Some (length (heap s))"
    and w: "weeklyTimer ut = Some (length (heap s) + 1)"
    and ad: "is_armed s' (length (heap s))" "callback (heap s' ! length (heap s)) = DailyCb chatID"
    and aw: "is_armed s' (length (heap s) + 1)"
      "callback (heap s' ! (length (heap s) + 1)) = WeeklyCb chatID"
    and old: "\<forall>j<length (heap s). is_armed s' j = is_armed (CancelUser chatID s) j"
    and wf: "wellFormed s \<longrightarrow> wellFormed s'"
    by blast
  have only: "armedWith s' (DailyCb chatID) = [length (heap s)]
      \<and> armedWith s' (WeeklyCb chatID) = [length (heap s) + 1]
      \<and> (\<forall>ut0. timers s chatID = Some ut0 \<longrightarrow> (\<forall>i \<in> refs ut0. \<not> is_armed s' i))"
    if wfs: "wellFormed s"
  proof (intro conjI allI impI ballI)
    from wf wfs have wf': "wellFormed s'" by simp
    show "armedWith s' (DailyCb chatID) = [length (heap s)]"
    proof (rule armedWith_single [OF ad])
      fix j assume "is_armed s' j" "callback (heap s' ! j) = DailyCb chatID"
      with tracked_daily [OF wellFormed_tracked [OF wf'], of j chatID] t d
      show "j = length (heap s)" by auto
    qed
    show "armedWith s' (WeeklyCb chatID) = [length (heap s) + 1]"
    proof (rule armedWith_single [OF aw])
      fix j assume "is_armed s' j" "callback (heap s' ! j) = WeeklyCb chatID"
      with tracked_weekly [OF wellFormed_tracked [OF wf'], of j chatID] t w
      show "j = length (heap s) + 1" by auto
    qed
    fix ut0 i assume "timers s chatID = Some ut0" "i \<in> refs ut0"
    moreover from this wfs have "i < length (heap s)"
      by (auto simp: wellFormed_def)
    ultimately show "\<not> is_armed s' i"
      using old by (simp add: CancelUser_armed)
  qed
  show ?thesis
    using run t d w ad aw only
    by (intro exI [of _ s'] exI [of _ ut] exI [of _ "length (heap s)"]
        exI [of _ "length (heap s) + 1"]) simp
qed

theorem ScheduleUser_one_daily_one_weekly_witness:
  "GetUser (exampleEnv (clock 19884 10 30) (UserFound exampleUser) (Inr [])) 1 = UserFound exampleUser
   \<and> wellFormed exampleScheduler
   \<and> (\<exists>s' d w. ScheduleUser (exampleEnv (clock 19884 10 30) (UserFound exampleUser) (Inr [])) 1
                  exampleScheduler = Inr s'
        \<and> d \<noteq> w \<and> armedWith s' (DailyCb 1) = [d] \<and> armedWith s' (WeeklyCb 1) = [w]
        \<and> \<not> is_armed s' 0 \<and> \<not> is_armed s' 1 \<and> \<not> is_armed s' 2 \<and> \<not> is_armed s' 3)"
proof -
  have g: "GetUser (exampleEnv (clock 19884 10 30) (UserFound exampleUser) (Inr [])) 1
           = UserFound exampleUser"
    by (simp add: exampleEnv_def)
  have r: "timers exampleScheduler 1 = Some \<lparr>dailyTimer = Some 0, weeklyTimer = Some 1,
      lectureTimers = [3], lectureScheduler = Some 2\<rparr>"
    by (simp add: exampleScheduler_def)
  show ?thesis
    using ScheduleUser_one_daily_one_weekly [OF g, of exampleScheduler] g
      wellFormed_exampleScheduler r
    by (auto simp: refs_def)
qed

text \<open>
  C2. The window of the weekly digest starts on the Monday on or before \<open>now\<close>, at most
  six days back, at the same time of day, and ends on the Friday four days later: it is the
  Monday to Friday of the week, Monday to Sunday, that contains \<open>now\<close>. From Monday to
  Friday \<open>now\<close> lies inside the window; on Saturday and Sunday the window lies before
  \<open>now\<close>.
\<close>

theorem weekWindow_is_the_week_of_now:
  "fst (weekWindow t) = AddDate t (- ((Weekday t + 6) mod 7))
   \<and> Weekday (fst (weekWindow t)) = 1
   \<and> snd (weekWindow t) = AddDate (fst (weekWindow t)) 4
   \<and> Weekday (snd (weekWindow t)) = 5
   \<and> fst (weekWindow t) \<le> t \<and> t < AddDate (fst (weekWindow t)) 7
   \<and> (1 \<le> Weekday t \<and> Weekday t \<le> 5 \<longrightarrow> t \<le> snd (weekWindow t))
   \<and> (Weekday t = 6 \<or> Weekday t = 0 \<longrightarrow> snd (weekWindow t) < t)"
proof -
  define w where "w = Weekday t"
  have r: "0 \<le> w" "w < 7" using Weekday_range [of t] by (simp_all add: w_def)
  have days: "(if w = 0 then 7 else w) - 1 = (w + 6) mod 7"
    using r by presburger
  have ws: "fst (weekWindow t) = AddDate t (- ((w + 6) mod 7))"
  proof -
    have "fst (weekWindow t) = AddDate t (- ((if w = 0 then 7 else w) - 1))"
      by (simp add: weekWindow_def Let_def w_def)
    then show ?thesis by (simp only: days)
  qed
  have we: "snd (weekWindow t) = AddDate (fst (weekWindow t)) 4"
    by (simp add: weekWindow_def Let_def)
  have monday: "Weekday (fst (weekWindow t)) = 1"
    unfolding ws Weekday_AddDate w_def [symmetric] using r by presburger
  have friday: "Weekday (snd (weekWindow t)) = 5"
    unfolding we Weekday_AddDate monday by simp
  have k: "0 \<le> (w + 6) mod 7" "(w + 6) mod 7 < 7" by simp_all
  have le: "fst (weekWindow t) \<le> t" "t < AddDate (fst (weekWindow t)) 7"
    using k Day_pos by (simp_all add: ws AddDate_def algebra_simps mult_left_mono
        flip: distrib_right)
  have weekdays: "t \<le> snd (weekWindow t)" if "1 \<le> w \<and> w \<le> 5"
  proof -
    from that have "(w + 6) mod 7 \<le> 4" by presburger
    then have "((w + 6) mod 7) * Day \<le> 4 * Day"
      using Day_pos by (intro mult_right_mono) simp_all
    then show ?thesis by (simp add: we ws AddDate_def)
  qed
  have weekend: "snd (weekWindow t) < t" if "w = 6 \<or> w = 0"
  proof -
    from that have "5 \<le> (w + 6) mod 7" by presburger
    then have "5 * Day \<le> ((w + 6) mod 7) * Day"
      using Day_pos by (intro mult_right_mono) simp_all
    then show ?thesis using Day_pos by (simp add: we ws AddDate_def)
  qed
  show ?thesis
    using ws monday we friday le weekdays weekend unfolding w_def by blast
qed

theorem weekWindow_is_the_week_of_now_witness:
  "1 \<le> Weekday (clock 19886 10 30) \<and> Weekday (clock 19886 10 30) \<le> 5
   \<and> Weekday (fst (weekWindow (clock 19886 10 30))) = 1
   \<and> fst (weekWindow (clock 19886 10 30)) \<le> clock 19886 10 30
   \<and> clock 19886 10 30 \<le> snd (weekWindow (clock 19886 10 30))
   \<and> Weekday (clock 19890 10 30) = 0
   \<and> snd (weekWindow (clock 19890 10 30)) < clock 19890 10 30"
proof -
  have a: "Weekday (clock 19886 10 30) = 3" and b: "Weekday (clock 19890 10 30) = 0"
    by (simp_all add: Weekday_def clock_def Day_def Minute_def Second_def)
  have wed: "1 \<le> Weekday (clock 19886 10 30) \<and> Weekday (clock 19886 10 30) \<le> 5"
    by (simp add: a)
  have sun: "Weekday (clock 19890 10 30) = 6 \<or> Weekday (clock 19890 10 30) = 0"
    by (simp add: b)
  from weekWindow_is_the_week_of_now [of "clock 19886 10 30"]
    weekWindow_is_the_week_of_now [of "clock 19890 10 30"] wed sun b
  show ?thesis by blast
qed

text \<open>
  On Saturday 15 June 2024 at noon the window runs from Monday 10 June to Friday 14 June,
  which is over; the next Monday is 17 June, day 19891.
\<close>

theorem weekWindow_saturday_counterexample:
  "Weekday (clock 19889 12 0) = 6
   \<and> weekWindow (clock 19889 12 0) = (clock 19884 12 0, clock 19888 12 0)
   \<and> clock 19888 12 0 < clock 19889 12 0
   \<and> weekWindow (clock 19889 12 0) \<noteq> (clock 19891 12 0, clock 19895 12 0)"
  by (simp add: weekWindow_def Weekday_def AddDate_def clock_def Day_def Minute_def Second_def)

text \<open>
  C3. The lead time is an \<^verbatim>\<open>int\<close> of minutes, turned into a \<^verbatim>\<open>Duration\<close> of
  nanoseconds by a multiplication that wraps around. For a lead time from -153722867 to
  153722867 minutes the product is exact. Then, for a user with a timer set, a calendar
  link and a calendar that is fetched and read, the replan makes one armed timer for each
  lecture whose start minus the lead time is strictly after \<open>now\<close>, in the order of the
  lectures, makes no other timer, and records exactly these timers in the set.
\<close>

theorem replan_arms_each_future_lecture:
  assumes "GetUser e chatID = UserFound u" and "WebCalURL u \<noteq> []"
    and "FetchCalendar e (WebCalURL u) = Inr cal"
    and "GetLectures e cal (now e) = Inr lectures"
    and "timers s chatID = Some ut"
    and "lead = (case Atoi e (ReminderOffset u) of None \<Rightarrow> 15 | Some n \<Rightarrow> n)"
    and "- 153722867 \<le> lead" and "lead \<le> 153722867"
  shows "\<exists>s' ut'. scheduleLectureReminders e chatID s = Inr s'
     \<and> timers s' chatID = Some ut'
     \<and> lectureTimers ut' = [length (heap s) ..< length (heap s')]
     \<and> (\<forall>i \<in> set (lectureTimers ut'). is_armed s' i)
     \<and> map (\<lambda>i. callback (heap s' ! i)) (lectureTimers ut')
         = map (\<lambda>l. ReminderCb chatID l lead)
             (filter (\<lambda>l. now e < Start l - lead * Minute) lectures)"
proof -
  define due where "due = filter (\<lambda>l. now e < reminderTime lead l) lectures"
  have due: "due = filter (\<lambda>l. now e < Start l - lead * Minute) lectures"
    using assms(7,8) by (simp add: due_def reminderTime_in_range)
  define new where "new = map (\<lambda>l. \<lparr>status = Armed,
      deadline = now e + Until e (reminderTime lead l),
      callback = ReminderCb chatID l lead\<rparr>) due"
  define ut' where "ut' = ut\<lparr>lectureTimers := [length (heap s) ..< length (heap s) + length due]\<rparr>"
  define s' where "s' = s\<lparr>timers := (timers s)(chatID \<mapsto> ut'),
      heap := heap (fold Stop (lectureTimers ut) s) @ new\<rparr>"
  have run: "scheduleLectureReminders e chatID s = Inr s'"
    unfolding s'_def ut'_def new_def
    by (rule replan_arms [OF assms(1-6)]) (simp add: due_def)
  have len: "length (heap s') = length (heap s) + length due"
    by (simp add: s'_def new_def)
  have at: "heap s' ! (length (heap s) + k) = new ! k" for k
    using nth_append_length_plus [of "heap (fold Stop (lectureTimers ut) s)" new k]
    by (simp add: s'_def)
  have t: "timers s' chatID = Some ut'" by (simp add: s'_def)
  have ids: "lectureTimers ut' = [length (heap s) ..< length (heap s')]"
    by (simp add: ut'_def len)
  have ids': "lectureTimers ut' = map (\<lambda>k. length (heap s) + k) [0 ..< length due]"
    using map_add_upt [of "length (heap s)" "length due"]
    by (simp add: ut'_def add.commute)
  have armed: "is_armed s' i" if "i \<in> set (lectureTimers ut')" for i
  proof -
    from that have "length (heap s) \<le> i" "i < length (heap s) + length due"
      by (simp_all add: ut'_def)
    then have "i = length (heap s) + (i - length (heap s))" "i - length (heap s) < length due"
      by simp_all
    then obtain k where k: "i = length (heap s) + k" "k < length due"
      by blast
    then have "status (new ! k) = Armed" by (simp add: new_def)
    with k show ?thesis by (simp add: is_armed_def at len)
  qed
  have cbs: "map (\<lambda>i. callback (heap s' ! i)) (lectureTimers ut')
             = map (\<lambda>l. ReminderCb chatID l lead) due"
    by (rule nth_equalityI) (simp_all add: ids' at new_def)
  show ?thesis
    using run t ids armed cbs unfolding due by blast
qed

theorem replan_arms_each_future_lecture_witness:
  "GetUser (exampleEnv (clock 19884 10 30) (UserFound exampleUser) (Inr morningLectures)) 1
     = UserFound exampleUser
   \<and> WebCalURL exampleUser \<noteq> []
   \<and> FetchCalendar (exampleEnv (clock 19884 10 30) (UserFound exampleUser) (Inr morningLectures))
        (WebCalURL exampleUser) = Inr ()
   \<and> GetLectures (exampleEnv (clock 19884 10 30) (UserFound exampleUser) (Inr morningLectures)) ()
        (clock 19884 10 30) = Inr morningLectures
   \<and> Atoi (exampleEnv (clock 19884 10 30) (UserFound exampleUser) (Inr morningLectures))
        (ReminderOffset exampleUser) = Some 15
   \<and> armedReminders
        (scheduleLectureReminders
           (exampleEnv (clock 19884 10 30) (UserFound exampleUser) (Inr morningLectures)) 1
           exampleScheduler) 1
       = [ReminderCb 1 (lectureAt ''Databases'' (clock 19884 11 0)) 15,
          ReminderCb 1 (lectureAt ''Algorithms'' (clock 19884 14 0)) 15]"
proof -
  let ?e = "exampleEnv (clock 19884 10 30) (UserFound exampleUser) (Inr morningLectures)"
  have g: "GetUser ?e 1 = UserFound exampleUser"
    and u: "WebCalURL exampleUser \<noteq> []"
    and f: "FetchCalendar ?e (WebCalURL exampleUser) = Inr ()"
    and l: "GetLectures ?e () (now ?e) = Inr morningLectures"
    and a: "Atoi ?e (ReminderOffset exampleUser) = Some 15"
    and n: "now ?e = clock 19884 10 30"
    by (simp_all add: exampleEnv_def exampleUser_def)
  have t: "timers exampleScheduler 1 = Some \<lparr>dailyTimer = Some 0, weeklyTimer = Some 1,
      lectureTimers = [3], lectureScheduler = Some 2\<rparr>"
    by (simp add: exampleScheduler_def)
  have m: "(15::int) = (case Atoi ?e (ReminderOffset exampleUser) of None \<Rightarrow> 15 | Some n \<Rightarrow> n)"
    by (simp add: a)
  have due: "filter (\<lambda>l. now ?e < Start l - 15 * Minute) morningLectures
     = [lectureAt ''Databases'' (clock 19884 11 0), lectureAt ''Algorithms'' (clock 19884 14 0)]"
    by (simp add: exampleEnv_def morningLectures_def lectureAt_def clock_def Day_def Minute_def
        Second_def)
  from replan_arms_each_future_lecture [OF g u f l t m] obtain s' ut' where
    "scheduleLectureReminders ?e 1 exampleScheduler = Inr s'" "timers s' 1 = Some ut'"
    "\<forall>i \<in> set (lectureTimers ut'). is_armed s' i"
    "map (\<lambda>i. callback (heap s' ! i)) (lectureTimers ut')
         = map (\<lambda>l. ReminderCb 1 l 15) (filter (\<lambda>l. now ?e < Start l - 15 * Minute) morningLectures)"
    by auto
  then have "armedReminders (scheduleLectureReminders ?e 1 exampleScheduler) 1
       = [ReminderCb 1 (lectureAt ''Databases'' (clock 19884 11 0)) 15,
          ReminderCb 1 (lectureAt ''Algorithms'' (clock 19884 14 0)) 15]"
    by (simp add: armedReminders_all due)
  with g u f l a n show ?thesis by simp
qed

text \<open>
  With a lead time of 153722868 minutes the product wraps around to a positive duration:
  at 10:30 a reminder is armed for the lecture of 09:00, whose start minus the lead time is
  almost three centuries in the past.
\<close>

theorem replan_overflow_counterexample:
  "GetUser (exampleEnv (clock 19884 10 30)
              (UserFound (exampleUser\<lparr>ReminderOffset := ''153722868''\<rparr>))
              (Inr [lectureAt ''Logic'' (clock 19884 9 0)])) 1
     = UserFound (exampleUser\<lparr>ReminderOffset := ''153722868''\<rparr>)
   \<and> Atoi (exampleEnv (clock 19884 10 30)
              (UserFound (exampleUser\<lparr>ReminderOffset := ''153722868''\<rparr>))
              (Inr [lectureAt ''Logic'' (clock 19884 9 0)])) ''153722868'' = Some 153722868
   \<and> \<not> clock 19884 10 30 < Start (lectureAt ''Logic'' (clock 19884 9 0)) - 153722868 * Minute
   \<and> armedReminders
        (scheduleLectureReminders
           (exampleEnv (clock 19884 10 30)
              (UserFound (exampleUser\<lparr>ReminderOffset := ''153722868''\<rparr>))
              (Inr [lectureAt ''Logic'' (clock 19884 9 0)])) 1
           exampleScheduler) 1
       = [ReminderCb 1 (lectureAt ''Logic'' (clock 19884 9 0)) 153722868]"
  by (simp add: armedReminders_def scheduleLectureReminders_def cancelLectureTimers_def
      exampleEnv_def exampleUser_def exampleScheduler_def lectureAt_def clock_def
      reminderTime_def wrap64_def Day_def Minute_def Second_def AfterFunc_def setField_def
      Until_def Sub_def Stop_def is_armed_def)

text \<open>
  C4. A lecture replan first stops every lecture-reminder timer of the user's timer set:
  none of them is armed when the replan returns. When the user has no record or no
  calendar link, or the calendar cannot be fetched or read, or there is no lecture today,
  the replan returns normally having done only that: no timer is made, none becomes armed,
  the set's list of lecture reminders is empty, and no message is sent.
\<close>

theorem replan_cancels_then_stops:
  "(\<forall>ut. timers s chatID = Some ut \<and> (\<forall>i \<in> set (lectureTimers ut). i < length (heap s)) \<longrightarrow>
      (\<exists>s'. scheduleLectureReminders e chatID s = Inr s'
            \<and> (\<forall>i \<in> set (lectureTimers ut). \<not> is_armed s' i)))
   \<and> (replanStops e chatID \<longrightarrow>
      (\<exists>s'. scheduleLectureReminders e chatID s = Inr s'
            \<and> outbox s' = outbox s
            \<and> length (heap s') = length (heap s)
            \<and> (\<forall>i. is_armed s' i \<longrightarrow> is_armed s i)
            \<and> (\<forall>ut. timers s chatID = Some ut \<longrightarrow>
                  timers s' = (timers s)(chatID \<mapsto> ut\<lparr>lectureTimers := []\<rparr>)
                  \<and> (\<forall>i \<in> set (lectureTimers ut). \<not> is_armed s' i))
            \<and> (timers s chatID = None \<longrightarrow> timers s' = timers s)))"
proof (intro conjI allI impI)
  fix ut
  assume a: "timers s chatID = Some ut \<and> (\<forall>i \<in> set (lectureTimers ut). i < length (heap s))"
  from replan_result [of s chatID ut e] a obtain due m where
    run: "scheduleLectureReminders e chatID s =
     Inr (s\<lparr>timers := (timers s)(chatID \<mapsto> ut\<lparr>lectureTimers :=
                [length (heap s) ..< length (heap s) + length due]\<rparr>),
            heap := heap (fold Stop (lectureTimers ut) s)
                    @ map (\<lambda>l. \<lparr>status = Armed, deadline = now e + Until e (reminderTime m l),
                                 callback = ReminderCb chatID l m\<rparr>) due\<rparr>)"
    (is "_ = Inr ?s'")
    by blast
  have "\<not> is_armed ?s' i" if "i \<in> set (lectureTimers ut)" for i
  proof -
    from that a have "i < length (heap s)" by blast
    then have "is_armed ?s' i = is_armed (fold Stop (lectureTimers ut) s) i"
      by (simp add: is_armed_def nth_append)
    with that show ?thesis by simp
  qed
  with run show "\<exists>s'. scheduleLectureReminders e chatID s = Inr s'
            \<and> (\<forall>i \<in> set (lectureTimers ut). \<not> is_armed s' i)"
    by blast
next
  assume "replanStops e chatID"
  then have "scheduleLectureReminders e chatID s = Inr (cancelLectureTimers chatID s)"
    by (rule replan_stops)
  then show "\<exists>s'. scheduleLectureReminders e chatID s = Inr s'
            \<and> outbox s' = outbox s
            \<and> length (heap s') = length (heap s)
            \<and> (\<forall>i. is_armed s' i \<longrightarrow> is_armed s i)
            \<and> (\<forall>ut. timers s chatID = Some ut \<longrightarrow>
                  timers s' = (timers s)(chatID \<mapsto> ut\<lparr>lectureTimers := []\<rparr>)
                  \<and> (\<forall>i \<in> set (lectureTimers ut). \<not> is_armed s' i))
            \<and> (timers s chatID = None \<longrightarrow> timers s' = timers s)"
    by (simp add: cancelLectureTimers_armed cancelLectureTimers_timers)
qed

theorem replan_cancels_then_stops_witness:
  "timers exampleScheduler 1 = Some \<lparr>dailyTimer = Some 0, weeklyTimer = Some 1,
      lectureTimers = [3], lectureScheduler = Some 2\<rparr>
   \<and> 3 < length (heap exampleScheduler)
   \<and> replanStops (exampleEnv (clock 19884 10 30) (UserFound exampleUser) (Inr [])) 1
   \<and> (\<exists>s'. scheduleLectureReminders
               (exampleEnv (clock 19884 10 30) (UserFound exampleUser) (Inr [])) 1
               exampleScheduler = Inr s'
         \<and> is_armed exampleScheduler 3 \<and> \<not> is_armed s' 3
         \<and> outbox s' = [] \<and> length (heap s') = 4
         \<and> timers s' 1 = Some \<lparr>dailyTimer = Some 0, weeklyTimer = Some 1,
              lectureTimers = [], lectureScheduler = Some 2\<rparr>)"
proof -
  have t: "timers exampleScheduler 1 = Some \<lparr>dailyTimer = Some 0, weeklyTimer = Some 1,
      lectureTimers = [3], lectureScheduler = Some 2\<rparr>"
    by (simp add: exampleScheduler_def)
  have l: "length (heap exampleScheduler) = 4" "outbox exampleScheduler = []"
    "is_armed exampleScheduler 3"
    by (simp_all add: exampleScheduler_def is_armed_def)
  have r: "replanStops (exampleEnv (clock 19884 10 30) (UserFound exampleUser) (Inr [])) 1"
    by (simp add: replanStops_def exampleEnv_def exampleUser_def)
  from replan_cancels_then_stops
    [of exampleScheduler 1 "exampleEnv (clock 19884 10 30) (UserFound exampleUser) (Inr [])"]
    t l r
  show ?thesis by auto
qed

text \<open>
  C5. When the user record cannot be found or cannot be read, \<^verbatim>\<open>ScheduleUser\<close> returns
  with the scheduler as it was: no timer is made, none is stopped, and the map is
  unchanged, so a timer set the identity already had stays in place, not cancelled.
\<close>

theorem ScheduleUser_unreadable_user:
  assumes "GetUser e chatID = UserMissing \<or> (\<exists>err. GetUser e chatID = UserError err)"
  shows "ScheduleUser e chatID s = Inr s"
  using assms by (auto simp: ScheduleUser_def)

theorem ScheduleUser_unreadable_user_witness:
  "GetUser (exampleEnv (clock 19884 10 30) (UserError ''database is locked'') (Inr [])) 1
     = UserError ''database is locked''
   \<and> ScheduleUser (exampleEnv (clock 19884 10 30) (UserError ''database is locked'') (Inr [])) 1
       exampleScheduler = Inr exampleScheduler
   \<and> is_armed exampleScheduler 0"
proof -
  have g: "GetUser (exampleEnv (clock 19884 10 30) (UserError ''database is locked'') (Inr [])) 1
     = UserError ''database is locked''"
    by (simp add: exampleEnv_def)
  then have "GetUser (exampleEnv (clock 19884 10 30) (UserError ''database is locked'') (Inr [])) 1
       = UserMissing
     \<or> (\<exists>err. GetUser (exampleEnv (clock 19884 10 30) (UserError ''database is locked'')
            (Inr [])) 1 = UserError err)"
    by blast
  from ScheduleUser_unreadable_user [OF this, of exampleScheduler] g show ?thesis
    by (simp add: is_armed_def exampleScheduler_def)
qed

text \<open>
  C6. \<^verbatim>\<open>CancelUser\<close> is idempotent. It has no failing branch: it returns a scheduler. On
  an identity with no entry in the map it changes nothing; called a second time in a row
  it changes nothing, neither the map, nor any timer, nor the messages sent.
\<close>

theorem CancelUser_idempotent:
  "(timers s chatID = None \<longrightarrow> CancelUser chatID s = s)
   \<and> CancelUser chatID (CancelUser chatID s) = CancelUser chatID s"
  by (simp add: CancelUser_absent)

theorem CancelUser_idempotent_witness:
  "timers exampleScheduler 2 = None
   \<and> CancelUser 2 exampleScheduler = exampleScheduler
   \<and> CancelUser 2 (CancelUser 2 exampleScheduler) = CancelUser 2 exampleScheduler"
  using CancelUser_idempotent [of exampleScheduler 2]
  by (simp add: exampleScheduler_def)

text \<open>
  C7. After \<^verbatim>\<open>StopAll\<close> the map is empty, and the timers of the runtime are the same
  timers as before, except that \<^verbatim>\<open>Stop()\<close> has been called on every timer that was in a
  user's timer set: such a timer is stopped when it was armed and is as it was otherwise,
  and every other timer is untouched. So no timer that was in a timer set is armed, and the
  runtime will not fire it. In a well-formed scheduler every armed timer is in a timer set:
  then every timer that was armed is stopped, none is armed afterwards, and no firing does
  anything. \<^verbatim>\<open>StopAll\<close> itself sends no message.
\<close>

theorem StopAll_stops_every_timer:
  assumes "set order = dom (timers s)"
  shows "timers (StopAll order s) = Map.empty
     \<and> outbox (StopAll order s) = outbox s
     \<and> length (heap (StopAll order s)) = length (heap s)
     \<and> (\<forall>i < length (heap s).
           heap (StopAll order s) ! i =
             (if \<exists>chatID ut. timers s chatID = Some ut \<and> i \<in> refs ut
              then stopTimer (heap s ! i) else heap s ! i))
     \<and> (\<forall>chatID ut. timers s chatID = Some ut \<longrightarrow>
           (\<forall>i \<in> refs ut. \<not> is_armed (StopAll order s) i
                           \<and> fire e i (StopAll order s) = Inr (StopAll order s)))
     \<and> (wellFormed s \<longrightarrow>
           heap (StopAll order s) = map stopTimer (heap s)
           \<and> (\<forall>i. \<not> is_armed (StopAll order s) i
                  \<and> fire e i (StopAll order s) = Inr (StopAll order s)))"
proof -
  have empty: "timers (StopAll order s) = Map.empty"
    using assms by (auto simp: StopAll_timers fun_eq_iff)
  have keys: "(\<exists>c \<in> set order. \<exists>ut. timers s c = Some ut \<and> i \<in> refs ut)
      = (\<exists>c ut. timers s c = Some ut \<and> i \<in> refs ut)" for i
    using assms by auto
  have nth: "heap (StopAll order s) ! i =
             (if \<exists>chatID ut. timers s chatID = Some ut \<and> i \<in> refs ut
              then stopTimer (heap s ! i) else heap s ! i)" if "i < length (heap s)" for i
    using StopAll_nth [OF that, of order] by (simp only: keys)
  have held: "\<not> is_armed (StopAll order s) i" if "timers s c = Some ut" "i \<in> refs ut" for c ut i
  proof -
    from that(1) assms have "c \<in> set order" by auto
    with that show ?thesis by (force simp: StopAll_armed)
  qed
  have none: "\<not> is_armed (StopAll order s) i" if wf: "wellFormed s" for i
  proof
    assume a: "is_armed (StopAll order s) i"
    then have "is_armed s i" by (simp add: StopAll_armed)
    from tracked_refs [OF wellFormed_tracked [OF wf this]] obtain ut where
      "timers s (owner (callback (heap s ! i))) = Some ut" "i \<in> refs ut"
      by blast
    from held [OF this] a show False by simp
  qed
  have all: "heap (StopAll order s) = map stopTimer (heap s)" if wf: "wellFormed s"
  proof (rule nth_equalityI)
    show "length (heap (StopAll order s)) = length (map stopTimer (heap s))" by simp
  next
    fix i assume "i < length (heap (StopAll order s))"
    then have i: "i < length (heap s)" by simp
    show "heap (StopAll order s) ! i = map stopTimer (heap s) ! i"
    proof (cases "is_armed s i")
      case True
      from tracked_refs [OF wellFormed_tracked [OF wf True]]
      have "\<exists>chatID ut. timers s chatID = Some ut \<and> i \<in> refs ut" by blast
      with nth [OF i] i show ?thesis by simp
    next
      case False
      with i have "stopTimer (heap s ! i) = heap s ! i"
        by (simp add: stopTimer_not_armed is_armed_def)
      with nth [OF i] i show ?thesis by simp
    qed
  qed
  show ?thesis
    using empty nth held none all by (simp add: fire_not_armed)
qed

theorem StopAll_stops_every_timer_witness:
  "set [1] = dom (timers exampleScheduler)
   \<and> wellFormed exampleScheduler
   \<and> timers (StopAll [1] exampleScheduler) = Map.empty
   \<and> heap (StopAll [1] exampleScheduler) = map stopTimer (heap exampleScheduler)
   \<and> status (stopTimer (heap exampleScheduler ! 0)) = Stopped
   \<and> \<not> is_armed (StopAll [1] exampleScheduler) 0
   \<and> \<not> is_armed (StopAll [1] exampleScheduler) 3
   \<and> fire (exampleEnv (clock 19885 8 0) (UserFound exampleUser) (Inr [])) 0
        (StopAll [1] exampleScheduler) = Inr (StopAll [1] exampleScheduler)
   \<and> outbox (StopAll [1] exampleScheduler) = []"
proof -
  have d: "set [1] = dom (timers exampleScheduler)"
    by (simp add: exampleScheduler_def)
  have o: "outbox exampleScheduler = []"
    "status (stopTimer (heap exampleScheduler ! 0)) = Stopped"
    by (simp_all add: exampleScheduler_def stopTimer_def)
  from StopAll_stops_every_timer [OF d, of "exampleEnv (clock 19885 8 0) (UserFound exampleUser) (Inr [])"]
    d wellFormed_exampleScheduler o
  show ?thesis by simp
qed

text \<open>
  The scheduler that two overlapping invocations of \<^verbatim>\<open>ScheduleUser\<close> leave is not
  well-formed: its first daily timer is armed and in no timer set. \<^verbatim>\<open>StopAll\<close> empties the
  map and leaves that timer armed; when it fires, the daily digest is delivered.
\<close>

theorem StopAll_leaked_timer_counterexample:
  "interleave
     (ScheduleUserSteps (exampleEnv (clock 19884 10 30) (UserFound exampleUser) (Inr [])) 1
        exampleUser)
     (ScheduleUserSteps (exampleEnv (clock 19884 10 30) (UserFound exampleUser) (Inr [])) 1
        exampleUser)
     [True, True, False, False, True, False] NewScheduler = Inr raceResult
   \<and> set [1] = dom (timers raceResult)
   \<and> timers (StopAll [1] raceResult) = Map.empty
   \<and> is_armed raceResult 0
   \<and> is_armed (StopAll [1] raceResult) 0
   \<and> delivered (fire (exampleEnv (clock 19885 8 0) (UserFound exampleUser) (Inr [])) 0
        (StopAll [1] raceResult)) = [(1, ''No lectures today.'')]"
proof -
  have d: "set [1] = dom (timers raceResult)"
    by (simp add: raceResult_def)
  have t: "timers (StopAll [1] raceResult) = Map.empty"
    by (simp add: StopAll_timers raceResult_def fun_eq_iff)
  have a: "is_armed raceResult 0"
    by (simp add: is_armed_def raceResult_def)
  have b: "is_armed (StopAll [1] raceResult) 0"
    using a by (simp add: StopAll_armed) (simp add: raceResult_def refs_def)
  let ?e = "exampleEnv (clock 19885 8 0) (UserFound exampleUser) (Inr [])"
  define s1 where "s1 = (StopAll [1] raceResult)\<lparr>heap :=
      (heap (StopAll [1] raceResult))[0 := (heap (StopAll [1] raceResult) ! 0)\<lparr>status := Fired\<rparr>]\<rparr>"
  have c: "callback (heap (StopAll [1] raceResult) ! 0) = DailyCb 1"
    by (simp add: StopAll_def raceResult_def)
  have f: "fire ?e 0 (StopAll [1] raceResult) = ScheduleUser ?e 1 (sendDailyTimetable ?e 1 s1)"
    using b c by (simp add: fire_def runCallback_def s1_def)
  have sd: "sendDailyTimetable ?e 1 s1 = sendMessage 1 ''No lectures today.'' s1"
    by (simp add: sendDailyTimetable_def exampleEnv_def exampleUser_def)
  have o: "outbox s1 = []"
    by (simp add: s1_def raceResult_def)
  have g: "GetUser ?e 1 = UserFound exampleUser"
    by (simp add: exampleEnv_def)
  from ScheduleUser_summary [OF g, of "sendDailyTimetable ?e 1 s1"] obtain s' where
    "ScheduleUser ?e 1 (sendDailyTimetable ?e 1 s1) = Inr s'"
    "outbox s' = outbox (sendDailyTimetable ?e 1 s1)"
    by blast
  then have "delivered (fire ?e 0 (StopAll [1] raceResult)) = [(1, ''No lectures today.'')]"
    by (simp add: f delivered_def sd sendMessage_def o)
  with overlap_run d t a b show ?thesis by simp
qed

text \<open>
  C8. The digest senders hand one message to the notifier and do nothing else: whatever
  the user record, the calendar and the lectures are, the map of timer sets and every
  timer of the runtime are left as they were.
\<close>

theorem digests_read_only:
  "(\<exists>text. sendDailyTimetable e chatID s = sendMessage chatID text s)
   \<and> timers (sendDailyTimetable e chatID s) = timers s
   \<and> heap (sendDailyTimetable e chatID s) = heap s
   \<and> (\<exists>text. sendWeeklyTimetable e chatID s = sendMessage chatID text s)
   \<and> timers (sendWeeklyTimetable e chatID s) = timers s
   \<and> heap (sendWeeklyTimetable e chatID s) = heap s"
proof -
  obtain a where a: "sendDailyTimetable e chatID s = sendMessage chatID a s"
    using sendDailyTimetable_sends by blast
  obtain b where b: "sendWeeklyTimetable e chatID s = sendMessage chatID b s"
    using sendWeeklyTimetable_sends by blast
  show ?thesis
    unfolding a b by (intro conjI exI [of _ a] exI [of _ b]) simp_all
qed

theorem digests_read_only_witness:
  "timers (sendDailyTimetable (exampleEnv (clock 19884 10 30) (UserFound exampleUser) (Inr [])) 1
      exampleScheduler) = timers exampleScheduler
   \<and> heap (sendWeeklyTimetable (exampleEnv (clock 19884 10 30) (UserFound exampleUser) (Inr [])) 1
      exampleScheduler) = heap exampleScheduler
   \<and> outbox (sendDailyTimetable (exampleEnv (clock 19884 10 30) (UserFound exampleUser) (Inr [])) 1
      exampleScheduler) = [(1, ''No lectures today.'')]"
  using digests_read_only [of "exampleEnv (clock 19884 10 30) (UserFound exampleUser) (Inr [])" 1
      exampleScheduler]
  by (simp add: sendDailyTimetable_def exampleEnv_def exampleUser_def sendMessage_def
      exampleScheduler_def)




text \<open>
  C10. When the user record cannot be read (no record, or a lookup error), both digest
  senders deliver the prompt to set the calendar link, and the lecture replan only cancels
  the old reminders: it makes no timer and arms none. This is what they do for a user
  whose record is read and has no calendar link.
\<close>

theorem unreadable_user_as_no_calendar:
  assumes "GetUser e chatID = UserMissing \<or> (\<exists>err. GetUser e chatID = UserError err)"
  shows "sendDailyTimetable e chatID s
           = sendMessage chatID ''Please set your calendar link using /set_calendar'' s
     \<and> sendWeeklyTimetable e chatID s
           = sendMessage chatID ''Please set your calendar link using /set_calendar'' s
     \<and> scheduleLectureReminders e chatID s = Inr (cancelLectureTimers chatID s)
     \<and> length (heap (cancelLectureTimers chatID s)) = length (heap s)
     \<and> (\<forall>i. is_armed (cancelLectureTimers chatID s) i \<longrightarrow> is_armed s i)
     \<and> (\<forall>ut. timers (cancelLectureTimers chatID s) chatID = Some ut \<longrightarrow> lectureTimers ut = [])
     \<and> (\<forall>u. WebCalURL u = [] \<longrightarrow>
           sendDailyTimetable (e\<lparr>GetUser := (GetUser e)(chatID := UserFound u)\<rparr>) chatID s
             = sendDailyTimetable e chatID s
           \<and> sendWeeklyTimetable (e\<lparr>GetUser := (GetUser e)(chatID := UserFound u)\<rparr>) chatID s
             = sendWeeklyTimetable e chatID s
           \<and> scheduleLectureReminders (e\<lparr>GetUser := (GetUser e)(chatID := UserFound u)\<rparr>) chatID s
             = scheduleLectureReminders e chatID s)"
proof -
  have daily: "sendDailyTimetable e' chatID s = sendMessage chatID prompt s"
    if "case GetUser e' chatID of UserFound u \<Rightarrow> WebCalURL u = [] | _ \<Rightarrow> True" for e' :: "'a env"
    using that by (simp add: sendDailyTimetable_def split: get_user_result.splits)
  have weekly: "sendWeeklyTimetable e' chatID s = sendMessage chatID prompt s"
    if "case GetUser e' chatID of UserFound u \<Rightarrow> WebCalURL u = [] | _ \<Rightarrow> True" for e' :: "'a env"
    using that by (simp add: sendWeeklyTimetable_def split: get_user_result.splits)
  have replan: "scheduleLectureReminders e' chatID s = Inr (cancelLectureTimers chatID s)"
    if "case GetUser e' chatID of UserFound u \<Rightarrow> WebCalURL u = [] | _ \<Rightarrow> True" for e' :: "'a env"
    using that by (simp add: scheduleLectureReminders_def split: get_user_result.splits)
  have here: "case GetUser e chatID of UserFound u \<Rightarrow> WebCalURL u = [] | _ \<Rightarrow> True"
    using assms by auto
  have there: "case GetUser (e\<lparr>GetUser := (GetUser e)(chatID := UserFound u)\<rparr>) chatID of
      UserFound u \<Rightarrow> WebCalURL u = [] | _ \<Rightarrow> True" if "WebCalURL u = []" for u
    using that by simp
  have timers_after: "lectureTimers ut = []"
    if "timers (cancelLectureTimers chatID s) chatID = Some ut" for ut
    using that by (auto simp: cancelLectureTimers_timers split: option.splits)
  show ?thesis
    using daily [OF here] weekly [OF here] replan [OF here] daily [OF there] weekly [OF there]
      replan [OF there] timers_after
    by (simp add: prompt_def cancelLectureTimers_armed)
qed

theorem unreadable_user_as_no_calendar_witness:
  "GetUser (exampleEnv (clock 19884 10 30) (UserError ''database is locked'') (Inr [])) 1
     = UserError ''database is locked''
   \<and> outbox (sendDailyTimetable
        (exampleEnv (clock 19884 10 30) (UserError ''database is locked'') (Inr [])) 1
        exampleScheduler) = [(1, ''Please set your calendar link using /set_calendar'')]
   \<and> outbox (sendWeeklyTimetable
        (exampleEnv (clock 19884 10 30) (UserError ''database is locked'') (Inr [])) 1
        exampleScheduler) = [(1, ''Please set your calendar link using /set_calendar'')]
   \<and> scheduleLectureReminders
        (exampleEnv (clock 19884 10 30) (UserError ''database is locked'') (Inr [])) 1
        exampleScheduler = Inr (cancelLectureTimers 1 exampleScheduler)
   \<and> length (heap (cancelLectureTimers 1 exampleScheduler)) = 4"
proof -
  have g: "GetUser (exampleEnv (clock 19884 10 30) (UserError ''database is locked'') (Inr [])) 1
     = UserError ''database is locked''"
    by (simp add: exampleEnv_def)
  then have "GetUser (exampleEnv (clock 19884 10 30) (UserError ''database is locked'') (Inr [])) 1
       = UserMissing
     \<or> (\<exists>err. GetUser (exampleEnv (clock 19884 10 30) (UserError ''database is locked'')
            (Inr [])) 1 = UserError err)"
    by blast
  from unreadable_user_as_no_calendar [OF this, of exampleScheduler] g show ?thesis
    by (simp add: sendMessage_def exampleScheduler_def)
qed

end
